theory Spec2Isabelle
  imports Complex_Main "HOL-Library.Char_ord" "HOL-Library.List_Lexorder"
begin

section \<open>Data model of \<^verbatim>\<open>public/app.js\<close>\<close>

text \<open>
  JavaScript numbers are modelled as exact reals: the development is about the arithmetic
  the program writes down, not about IEEE rounding. \<^verbatim>\<open>Infinity\<close> and \<^verbatim>\<open>NaN\<close>
  have no real counterpart; where the program uses them they are modelled by \<open>None\<close>.
  A JavaScript point object \<^verbatim>\<open>{x, y}\<close> is the record \<open>Point\<close> with the fields
  \<open>px\<close> and \<open>py\<close>, a raw stream entry \<^verbatim>\<open>[lat, lon]\<close> is \<open>RawPoint\<close>.
\<close>

record Point =
  px :: real
  py :: real

record RawPoint =
  lat :: real
  lon :: real

record ViewState =
  centerX :: real
  centerY :: real
  scale :: real
  panX :: real
  panY :: real

subsection \<open>Configuration constants\<close>

definition NO_OVERLAP_TRACK_COLOR_RGB :: "real list" where
  "NO_OVERLAP_TRACK_COLOR_RGB = [0, 0, 0]"

definition MAX_OVERLAP_TRACK_COLOR_RGB :: "real list" where
  "MAX_OVERLAP_TRACK_COLOR_RGB = [1, 0, 0]"

definition NON_OVERLAP_THICKNESS :: real where
  "NON_OVERLAP_THICKNESS = 2"

definition MIN_OVERLAP_THICKNESS_START :: real where
  "MIN_OVERLAP_THICKNESS_START = 4"

definition MAX_OVERLAP_THICKNESS :: real where
  "MAX_OVERLAP_THICKNESS = 20"

definition MIN_OVERLAPS_FOR_EFFECT_START :: real where
  "MIN_OVERLAPS_FOR_EFFECT_START = 2"

definition MAX_OVERLAPS_FOR_FULL_EFFECT :: real where
  "MAX_OVERLAPS_FOR_FULL_EFFECT = 5"

definition OVERLAP_PROXIMITY_ABSTRACT :: real where
  "OVERLAP_PROXIMITY_ABSTRACT = 10"

definition GLOBAL_SCALE :: real where
  "GLOBAL_SCALE = 50000"

definition CLICK_SENSITIVITY_PIXELS :: real where
  "CLICK_SENSITIVITY_PIXELS = 10"

definition GRID_CELL_SIZE :: real where
  "GRID_CELL_SIZE = OVERLAP_PROXIMITY_ABSTRACT"

section \<open>Style mapping (the per-segment branch of \<^verbatim>\<open>prepareDataForWebGL\<close>)\<close>

text \<open>
  The thickness computed for a segment with the given overlap count: the constant for
  counts up to 1, otherwise the clamped linear ramp, clamped once more to the range of
  overlap thicknesses.
\<close>

definition thicknessRatio :: "nat \<Rightarrow> real" where
  "thicknessRatio overlapCount =
     (if MAX_OVERLAPS_FOR_FULL_EFFECT > MIN_OVERLAPS_FOR_EFFECT_START
      then min 1 (max 0 ((real overlapCount - MIN_OVERLAPS_FOR_EFFECT_START) /
                         (MAX_OVERLAPS_FOR_FULL_EFFECT - MIN_OVERLAPS_FOR_EFFECT_START)))
      else if real overlapCount \<ge> MAX_OVERLAPS_FOR_FULL_EFFECT then 1
      else 0)"

definition segmentThickness :: "nat \<Rightarrow> real" where
  "segmentThickness overlapCount =
     (if overlapCount \<le> 1 then NON_OVERLAP_THICKNESS
      else
        let thickness = MIN_OVERLAP_THICKNESS_START +
              thicknessRatio overlapCount * (MAX_OVERLAP_THICKNESS - MIN_OVERLAP_THICKNESS_START)
        in min MAX_OVERLAP_THICKNESS (max MIN_OVERLAP_THICKNESS_START thickness))"

definition colorFadeStartReferenceCount :: real where
  "colorFadeStartReferenceCount = 1"

definition colorRatio :: "nat \<Rightarrow> real" where
  "colorRatio overlapCount =
     (if MAX_OVERLAPS_FOR_FULL_EFFECT > colorFadeStartReferenceCount
      then min 1 (max 0 ((real overlapCount - colorFadeStartReferenceCount) /
                         (MAX_OVERLAPS_FOR_FULL_EFFECT - colorFadeStartReferenceCount)))
      else if real overlapCount \<ge> MAX_OVERLAPS_FOR_FULL_EFFECT then 1
      else 0)"

definition segmentColorRGB :: "nat \<Rightarrow> real list" where
  "segmentColorRGB overlapCount =
     (if overlapCount \<le> 1 then map (\<lambda>c. c) NO_OVERLAP_TRACK_COLOR_RGB
      else
        [NO_OVERLAP_TRACK_COLOR_RGB ! 0 + colorRatio overlapCount *
           (MAX_OVERLAP_TRACK_COLOR_RGB ! 0 - NO_OVERLAP_TRACK_COLOR_RGB ! 0),
         NO_OVERLAP_TRACK_COLOR_RGB ! 1 + colorRatio overlapCount *
           (MAX_OVERLAP_TRACK_COLOR_RGB ! 1 - NO_OVERLAP_TRACK_COLOR_RGB ! 1),
         NO_OVERLAP_TRACK_COLOR_RGB ! 2 + colorRatio overlapCount *
           (MAX_OVERLAP_TRACK_COLOR_RGB ! 2 - NO_OVERLAP_TRACK_COLOR_RGB ! 2)])"

section \<open>View transform\<close>

text \<open>
  The click handler and the wheel handler both compute the world position of a canvas
  position as \<^verbatim>\<open>(screen - pan) / scale\<close>.
\<close>

definition screenToWorld :: "ViewState \<Rightarrow> real \<times> real \<Rightarrow> Point" where
  "screenToWorld vs s =
     \<lparr> px = (fst s - panX vs) / scale vs, py = (snd s - panY vs) / scale vs \<rparr>"

text \<open>
  The \<^verbatim>\<open>view\<close> uniform of the draw command, applied to a world position: the matrix
  scales by \<^verbatim>\<open>s\<close> and translates by \<^verbatim>\<open>(panX * s, panY * s)\<close>. The orthographic
  projection that follows it takes canvas pixels to clip space, so that \<open>viewUniform\<close> is
  the canvas position at which the program draws a world position.
\<close>

definition viewUniform :: "ViewState \<Rightarrow> Point \<Rightarrow> real \<times> real" where
  "viewUniform vs w =
     (let s = scale vs
      in (s * px w + panX vs * s, s * py w + panY vs * s))"

text \<open>
  In the words of the specification, the canvas position of a world position is
  \<^verbatim>\<open>(x*scale + panX, y*scale + panY)\<close>. \<open>specWorldToScreen\<close> is this formula, to be
  compared with \<open>viewUniform\<close>, the map of the program.
\<close>

definition specWorldToScreen :: "ViewState \<Rightarrow> Point \<Rightarrow> real \<times> real" where
  "specWorldToScreen vs w = (px w * scale vs + panX vs, py w * scale vs + panY vs)"

text \<open>
  The wheel listener. \<open>mouseX\<close> and \<open>mouseY\<close> are the event position relative to the
  canvas; \<open>zoomAtPoint\<close> is the listener's body from the computation of the world
  position on, for a given \<^verbatim>\<open>scaleAmount\<close>.
\<close>

definition zoomAtPoint :: "ViewState \<Rightarrow> real \<Rightarrow> real \<Rightarrow> real \<Rightarrow> ViewState" where
  "zoomAtPoint vs mouseX mouseY scaleAmount =
     (let worldXBeforeZoom = (mouseX - panX vs) / scale vs;
          worldYBeforeZoom = (mouseY - panY vs) / scale vs;
          vs1 = vs\<lparr>scale := scale vs * scaleAmount\<rparr>;
          vs2 = vs1\<lparr>scale := max 0.01 (min (scale vs1) 100)\<rparr>;
          vs3 = vs2\<lparr>panX := mouseX - worldXBeforeZoom * scale vs2\<rparr>
      in vs3\<lparr>panY := mouseY - worldYBeforeZoom * scale vs3\<rparr>)"

definition zoomFactor :: real where
  "zoomFactor = 1.1"

definition wheelListener :: "ViewState \<Rightarrow> real \<Rightarrow> real \<Rightarrow> real \<Rightarrow> ViewState" where
  "wheelListener vs deltaY mouseX mouseY =
     zoomAtPoint vs mouseX mouseY (if deltaY < 0 then zoomFactor else 1 / zoomFactor)"

section \<open>Distance from a point to a segment\<close>

text \<open>
  \<open>divideChecked\<close> is the division of the program with the divisor checked: \<open>None\<close> stands
  for a division by zero, so that a function built on it returns \<open>Some\<close> only where it
  never divides by zero.
\<close>

definition divideChecked :: "real \<Rightarrow> real \<Rightarrow> real option" where
  "divideChecked a b = (if b = 0 then None else Some (a / b))"

definition distancePointToSegment :: "Point \<Rightarrow> Point \<Rightarrow> Point \<Rightarrow> real option" where
  "distancePointToSegment p a b =
     (let l2 = (px a - px b)\<^sup>2 + (py a - py b)\<^sup>2
      in if l2 = 0 then Some (sqrt ((px p - px a)\<^sup>2 + (py p - py a)\<^sup>2))
         else
           case divideChecked ((px p - px a) * (px b - px a) + (py p - py a) * (py b - py a)) l2 of
             None \<Rightarrow> None
           | Some t0 \<Rightarrow>
               let t = max 0 (min 1 t0);
                   projectionX = px a + t * (px b - px a);
                   projectionY = py a + t * (py b - py a)
               in Some (sqrt ((px p - projectionX)\<^sup>2 + (py p - projectionY)\<^sup>2)))"



section \<open>Tracks, buffers and the program state\<close>

text \<open>
  A JavaScript \<^verbatim>\<open>Set\<close> is a finite collection without repetitions: it is modelled by
  a list without repetitions, \<^verbatim>\<open>add\<close> by \<open>List.insert\<close> and \<^verbatim>\<open>size\<close> by \<open>length\<close>
  (the program reads the sets of the grid through their size only, and sorts the set of
  types before it uses it, so that the order of the list does not matter). A \<^verbatim>\<open>Map\<close>
  and the filter object are partial functions. Identifiers of activities are natural
  numbers.
\<close>

record Segment =
  p1 :: Point
  p2 :: Point
  overlapCount :: nat

record Track =
  trackId :: nat
  internalId :: nat
  trackType :: string
  translatedPoints :: "Point list"
  segmentsWithOverlap :: "Segment list"

text \<open>
  An entry of the activity list. \<open>a_has_polyline\<close> is the truth value of
  \<^verbatim>\<open>activity.map && activity.map.summary_polyline\<close>; \<open>a_type\<close> is \<open>None\<close> when the
  entry has no \<^verbatim>\<open>type\<close> that is a string.
\<close>

record ActivityInfo =
  a_id :: nat
  a_name :: string
  a_type :: "string option"
  a_has_polyline :: bool
  a_start_date_local :: string
  a_distance :: real
  a_moving_time :: real
  a_elapsed_time :: real
  a_total_elevation_gain :: real

text \<open>
  The metadata stored per track. The program renders the date in the locale of the
  browser; the model keeps the string it is computed from.
\<close>

record Metadata =
  m_id :: nat
  m_name :: string
  m_type :: string
  m_date :: string
  m_distance :: real
  m_movingTime :: real
  m_elapsedTime :: real
  m_totalElevationGain :: real

text \<open>
  The value of \<^verbatim>\<open>streams.latlng.data\<close> once it is truthy: an array, whose entries are
  \<^verbatim>\<open>null\<close> or pairs \<^verbatim>\<open>[lat, lon]\<close> of numbers, or another truthy value, which is
  given by its \<^verbatim>\<open>length\<close> property (\<open>None\<close> when it has none, as a number or a plain
  object). Entries of other shapes would give \<^verbatim>\<open>NaN\<close> coordinates, which the real
  numbers of the model do not have.
\<close>

datatype LatLngEntry = NullEntry | LatLng real real

datatype LatLngData = ArrayData "LatLngEntry list" | OtherData "nat option"

record StreamData =
  activityInfo :: ActivityInfo
  latlngStream :: LatLngData
  timeStream :: "real list option"
  distStream :: "real list option"

record Buffers =
  positions :: "real list"
  colors :: "real list"
  thicknesses :: "real list"
  indices :: "nat list"
  segmentTrackIds :: "nat list"

record State =
  reglInitialized :: bool
  canvasWidth :: real
  canvasHeight :: real
  allTracksData :: "Track list"
  activityMetadata :: "nat \<rightharpoonup> Metadata"
  activityTypes :: "string list"
  activeActivityFilters :: "string \<rightharpoonup> bool"
  viewState :: ViewState
  initialViewState :: ViewState
  isPanning :: bool
  pointPresenceGrid :: "string \<rightharpoonup> nat list"
  webGLTrackBuffers :: Buffers

section \<open>Strings\<close>

text \<open>
  The decimal rendering of an integer, as a template literal produces it for the integral
  values the grid uses (the exponent notation of very large magnitudes is not modelled).
\<close>

definition digitChar :: "nat \<Rightarrow> char" where
  "digitChar d = ''0123456789'' ! d"

definition digitChars :: "char set" where
  "digitChars = set ''0123456789''"

fun natToString :: "nat \<Rightarrow> string" where
  "natToString n =
     (if n < 10 then [digitChar n] else natToString (n div 10) @ [digitChar (n mod 10)])"

declare natToString.simps [simp del]

definition numberToString :: "int \<Rightarrow> string" where
  "numberToString i =
     (if i < 0 then CHR ''-'' # natToString (nat (- i)) else natToString (nat i))"

text \<open>The grid key \<^verbatim>\<open>`${gridX}_${gridY}`\<close>.\<close>

definition gridKey :: "int \<Rightarrow> int \<Rightarrow> string" where
  "gridKey gridX gridY = numberToString gridX @ ''_'' @ numberToString gridY"

text \<open>\<^verbatim>\<open>toLowerCase\<close> on the letters of ASCII; other characters are kept.\<close>

definition lowerChar :: "char \<Rightarrow> char" where
  "lowerChar c =
     (case map_of (zip ''ABCDEFGHIJKLMNOPQRSTUVWXYZ'' ''abcdefghijklmnopqrstuvwxyz'') c of
        Some l \<Rightarrow> l
      | None \<Rightarrow> c)"

definition toLowerCase :: "string \<Rightarrow> string" where
  "toLowerCase s = map lowerChar s"

section \<open>\<^verbatim>\<open>processStravaData\<close>\<close>

definition translateScale :: "RawPoint \<Rightarrow> RawPoint \<Rightarrow> Point" where
  "translateScale firstPoint p =
     \<lparr> px = (lon p - lon firstPoint) * GLOBAL_SCALE,
       py = - (lat p - lat firstPoint) * GLOBAL_SCALE \<rparr>"

text \<open>The body of the loop that populates \<^verbatim>\<open>pointPresenceGrid\<close>, for one point.\<close>

definition gridAdd :: "nat \<Rightarrow> (string \<rightharpoonup> nat list) \<Rightarrow> Point \<Rightarrow> (string \<rightharpoonup> nat list)" where
  "gridAdd iid grid tp =
     (let gridX = \<lfloor>px tp / GRID_CELL_SIZE\<rfloor>;
          gridY = \<lfloor>py tp / GRID_CELL_SIZE\<rfloor>;
          key = gridKey gridX gridY;
          grid1 = (if grid key = None then grid(key \<mapsto> []) else grid)
      in case grid1 key of
           Some ids \<Rightarrow> grid1(key \<mapsto> List.insert iid ids)
         | None \<Rightarrow> grid1)"

text \<open>
  \<^verbatim>\<open>latlngStream.length\<close>, and \<^verbatim>\<open>latlngStream.map(p => ({ lat: p[0], lon: p[1] }))\<close>.
  The latter is \<open>None\<close> where the program throws a \<^verbatim>\<open>TypeError\<close>: the value is no array
  and has no \<^verbatim>\<open>map\<close>, or an entry is \<^verbatim>\<open>null\<close>.
\<close>

definition dataLength :: "LatLngData \<Rightarrow> nat option" where
  "dataLength d = (case d of ArrayData entries \<Rightarrow> Some (length entries) | OtherData n \<Rightarrow> n)"

fun entryPoints :: "LatLngEntry list \<Rightarrow> RawPoint list option" where
  "entryPoints [] = Some []"
| "entryPoints (NullEntry # entries) = None"
| "entryPoints (LatLng la lo # entries) =
     (case entryPoints entries of
        Some ps \<Rightarrow> Some (\<lparr> lat = la, lon = lo \<rparr> # ps)
      | None \<Rightarrow> None)"

definition originalPoints :: "LatLngData \<Rightarrow> RawPoint list option" where
  "originalPoints d = (case d of ArrayData entries \<Rightarrow> entryPoints entries | OtherData n \<Rightarrow> None)"

text \<open>
  The test \<^verbatim>\<open>latlngStream.length < 2\<close>. A value without a \<^verbatim>\<open>length\<close> passes it, since
  the comparison of \<^verbatim>\<open>undefined\<close> with 2 is false.
\<close>

definition shortStream :: "LatLngData \<Rightarrow> bool" where
  "shortStream d = (case dataLength d of Some n \<Rightarrow> n < 2 | None \<Rightarrow> False)"

text \<open>
  The points of a track: every raw point relative to the first one, scaled, with the
  latitude axis inverted. The function is applied to streams of two points or more.
\<close>

definition translatedScaledPoints :: "RawPoint list \<Rightarrow> Point list" where
  "translatedScaledPoints raw =
     (let firstPoint = hd raw
      in map (translateScale firstPoint) raw)"

definition trackMetadata :: "ActivityInfo \<Rightarrow> string \<Rightarrow> Metadata" where
  "trackMetadata info lowerType =
     \<lparr> m_id = a_id info, m_name = a_name info, m_type = lowerType,
       m_date = a_start_date_local info, m_distance = a_distance info,
       m_movingTime = a_moving_time info, m_elapsedTime = a_elapsed_time info,
       m_totalElevationGain = a_total_elevation_gain info \<rparr>"

definition trackForOverlap :: "ActivityInfo \<Rightarrow> string \<Rightarrow> nat \<Rightarrow> Point list \<Rightarrow> Track" where
  "trackForOverlap info lowerType index points =
     \<lparr> trackId = a_id info, internalId = index, trackType = lowerType,
       translatedPoints = points, segmentsWithOverlap = [] \<rparr>"

text \<open>
  The body of the \<^verbatim>\<open>forEach\<close> of \<^verbatim>\<open>processStravaData\<close> for one entry and its index.
  The result is \<open>None\<close> where the body throws a \<^verbatim>\<open>TypeError\<close>: on the conversion of
  the entries, or on \<^verbatim>\<open>activityInfo.type.toLowerCase()\<close> for an activity without a type.
  Both come before the first change of the state.
\<close>

definition processStream :: "State \<Rightarrow> StreamData \<Rightarrow> nat \<Rightarrow> State option" where
  "processStream st sd index =
     (if shortStream (latlngStream sd) then Some st
      else
        case originalPoints (latlngStream sd) of
          None \<Rightarrow> None
        | Some raw \<Rightarrow>
            (case a_type (activityInfo sd) of
               None \<Rightarrow> None
             | Some t \<Rightarrow>
                 let points = translatedScaledPoints raw;
                     info = activityInfo sd;
                     lowerType = toLowerCase t
                 in Some (st\<lparr> activityMetadata :=
                              (activityMetadata st)(a_id info \<mapsto> trackMetadata info lowerType),
                            activityTypes := List.insert lowerType (activityTypes st),
                            allTracksData :=
                              allTracksData st @ [trackForOverlap info lowerType index points],
                            pointPresenceGrid :=
                              foldl (gridAdd index) (pointPresenceGrid st) points \<rparr>)))"

text \<open>
  \<^verbatim>\<open>processStravaData\<close> either completes or throws; in both cases the state is the one
  that the entries before have left.
\<close>

datatype ProcessResult = Completed State | Threw State

fun resultState :: "ProcessResult \<Rightarrow> State" where
  "resultState (Completed st) = st"
| "resultState (Threw st) = st"

fun processFrom :: "nat \<Rightarrow> State \<Rightarrow> StreamData list \<Rightarrow> ProcessResult" where
  "processFrom index st [] = Completed st"
| "processFrom index st (sd # rest) =
     (case processStream st sd index of
        None \<Rightarrow> Threw st
      | Some st' \<Rightarrow> processFrom (Suc index) st' rest)"

definition processStravaData :: "State \<Rightarrow> StreamData list \<Rightarrow> ProcessResult" where
  "processStravaData st streamDataArray = processFrom 0 st streamDataArray"

text \<open>
  The entries on which the body throws: the length test lets them pass, and the entries
  cannot be converted or the activity has no type. \<open>reached\<close> are the entries that the
  \<^verbatim>\<open>forEach\<close> processes to the end, those before the first on which the body throws, and
  \<open>streamTrack\<close> is the track that the body pushes for such an entry that passes the
  length test.
\<close>

definition streamThrows :: "StreamData \<Rightarrow> bool" where
  "streamThrows sd =
     (\<not> shortStream (latlngStream sd) \<and>
      (originalPoints (latlngStream sd) = None \<or> a_type (activityInfo sd) = None))"

definition reached :: "StreamData list \<Rightarrow> StreamData list" where
  "reached streamDataArray = takeWhile (\<lambda>sd. \<not> streamThrows sd) streamDataArray"

definition streamTrack :: "StreamData \<Rightarrow> nat \<Rightarrow> Track" where
  "streamTrack sd index =
     trackForOverlap (activityInfo sd) (toLowerCase (the (a_type (activityInfo sd)))) index
       (translatedScaledPoints (the (originalPoints (latlngStream sd))))"

text \<open>The identifiers stored in the grid for a cell; none where the grid has no entry.\<close>

definition gridCell :: "(string \<rightharpoonup> nat list) \<Rightarrow> int \<Rightarrow> int \<Rightarrow> nat list" where
  "gridCell grid gx gy = (case grid (gridKey gx gy) of Some ids \<Rightarrow> ids | None \<Rightarrow> [])"

section \<open>Overlap classification\<close>

definition vicinity :: "(int \<times> int) list" where
  "vicinity = concat (map (\<lambda>dx. map (\<lambda>dy. (dx, dy)) [-1, 0, 1]) [-1, 0, 1])"

definition addAll :: "nat list \<Rightarrow> nat list \<Rightarrow> nat list" where
  "addAll acc ids = foldl (\<lambda>s i. List.insert i s) acc ids"

definition getOverlapCountForPoint :: "(string \<rightharpoonup> nat list) \<Rightarrow> Point \<Rightarrow> nat \<Rightarrow> nat" where
  "getOverlapCountForPoint grid abstractScaledPoint currentTrackInternalId =
     (let gridX = \<lfloor>px abstractScaledPoint / GRID_CELL_SIZE\<rfloor>;
          gridY = \<lfloor>py abstractScaledPoint / GRID_CELL_SIZE\<rfloor>;
          uniqueTrackInternalIdsInVicinity =
            foldl (\<lambda>acc d. case grid (gridKey (gridX + fst d) (gridY + snd d)) of
                               Some ids \<Rightarrow> addAll acc ids
                             | None \<Rightarrow> acc) [] vicinity
      in length uniqueTrackInternalIdsInVicinity)"

text \<open>
  The segments of one track: one per consecutive pair of points, classified at the
  midpoint. A list of fewer than two points has no segment.
\<close>

fun trackSegments :: "(string \<rightharpoonup> nat list) \<Rightarrow> nat \<Rightarrow> Point list \<Rightarrow> Segment list" where
  "trackSegments grid iid (a # b # rest) =
     \<lparr> p1 = a, p2 = b,
       overlapCount = getOverlapCountForPoint grid
         \<lparr> px = (px a + px b) / 2, py = (py a + py b) / 2 \<rparr> iid \<rparr>
     # trackSegments grid iid (b # rest)"
| "trackSegments grid iid [a] = []"
| "trackSegments grid iid [] = []"

definition calculateAllSegmentOverlaps :: "State \<Rightarrow> State" where
  "calculateAllSegmentOverlaps st =
     st\<lparr> allTracksData :=
           map (\<lambda>track. track\<lparr> segmentsWithOverlap :=
                   trackSegments (pointPresenceGrid st) (internalId track)
                     (translatedPoints track) \<rparr>)
             (allTracksData st) \<rparr>"

section \<open>Render buffers and the activity filter\<close>

text \<open>
  \<^verbatim>\<open>activeActivityFilters[type]\<close> is truthy exactly when the object has the value
  \<^verbatim>\<open>true\<close> for the type.
\<close>

definition filterActive :: "(string \<rightharpoonup> bool) \<Rightarrow> string \<Rightarrow> bool" where
  "filterActive filters t = (filters t = Some True)"

definition emptyBuffers :: Buffers where
  "emptyBuffers =
     \<lparr> positions = [], colors = [], thicknesses = [], indices = [], segmentTrackIds = [] \<rparr>"

text \<open>
  The body of the inner \<^verbatim>\<open>forEach\<close> of \<^verbatim>\<open>prepareDataForWebGL\<close>: the buffers and
  \<^verbatim>\<open>currentIndex\<close> after one more segment of the track with identifier \<open>tid\<close>.
\<close>

definition pushSegment :: "nat \<Rightarrow> Buffers \<times> nat \<Rightarrow> Segment \<Rightarrow> Buffers \<times> nat" where
  "pushSegment tid acc segment =
     (let buf = fst acc;
          currentIndex = snd acc;
          thickness = segmentThickness (overlapCount segment);
          colorRGB = segmentColorRGB (overlapCount segment)
      in (buf\<lparr> positions := positions buf @
                   [px (p1 segment), py (p1 segment), px (p2 segment), py (p2 segment)],
                colors := colors buf @ colorRGB @ colorRGB,
                thicknesses := thicknesses buf @ [thickness, thickness],
                indices := indices buf @ [currentIndex, currentIndex + 1],
                segmentTrackIds := segmentTrackIds buf @ [tid, tid] \<rparr>,
          currentIndex + 2))"

definition pushTrack :: "(string \<rightharpoonup> bool) \<Rightarrow> Buffers \<times> nat \<Rightarrow> Track \<Rightarrow> Buffers \<times> nat" where
  "pushTrack filters acc track =
     (if \<not> filterActive filters (trackType track) then acc
      else foldl (pushSegment (trackId track)) acc (segmentsWithOverlap track))"

definition prepareDataForWebGL :: "State \<Rightarrow> State" where
  "prepareDataForWebGL st =
     st\<lparr> webGLTrackBuffers :=
           fst (foldl (pushTrack (activeActivityFilters st)) (emptyBuffers, 0)
                  (allTracksData st)) \<rparr>"

text \<open>
  For the statement of what the buffers hold: \<open>visibleSegments\<close> lists the segments of
  the tracks whose type is active, track by track, each with its track, and \<open>buffersOf\<close>
  lays a list of segments out as the five flat arrays: four coordinates, two colours, two
  thicknesses, two consecutive vertex indices and two track identifiers per segment.
\<close>

definition visibleSegments :: "(string \<rightharpoonup> bool) \<Rightarrow> Track list \<Rightarrow> (Track \<times> Segment) list" where
  "visibleSegments filters tracks =
     concat (map (\<lambda>t. map (\<lambda>s. (t, s)) (segmentsWithOverlap t))
               (filter (\<lambda>t. filterActive filters (trackType t)) tracks))"

definition buffersOf :: "(Track \<times> Segment) list \<Rightarrow> Buffers" where
  "buffersOf segs =
     \<lparr> positions = concat (map (\<lambda>e. [px (p1 (snd e)), py (p1 (snd e)),
                                          px (p2 (snd e)), py (p2 (snd e))]) segs),
       colors = concat (map (\<lambda>e. segmentColorRGB (overlapCount (snd e)) @
                                   segmentColorRGB (overlapCount (snd e))) segs),
       thicknesses = concat (map (\<lambda>e. [segmentThickness (overlapCount (snd e)),
                                         segmentThickness (overlapCount (snd e))]) segs),
       indices = [0..<2 * length segs],
       segmentTrackIds = concat (map (\<lambda>e. [trackId (fst e), trackId (fst e)]) segs) \<rparr>"

text \<open>
  \<^verbatim>\<open>updateActivityToggles\<close>: every known type that the filter object does not have yet
  becomes visible.
\<close>

definition updateActivityToggles :: "State \<Rightarrow> State" where
  "updateActivityToggles st =
     st\<lparr> activeActivityFilters :=
           foldl (\<lambda>filters t. if filters t = None then filters(t \<mapsto> True) else filters)
             (activeActivityFilters st) (sort (activityTypes st)) \<rparr>"

text \<open>The \<^verbatim>\<open>change\<close> listener of the checkbox of one type.\<close>

definition checkboxChange :: "State \<Rightarrow> string \<Rightarrow> bool \<Rightarrow> State" where
  "checkboxChange st t checked =
     prepareDataForWebGL (st\<lparr> activeActivityFilters := (activeActivityFilters st)(t \<mapsto> checked) \<rparr>)"

section \<open>Fitting the view to the data\<close>

text \<open>A running minimum or maximum that starts at an infinity, which \<open>None\<close> stands for.\<close>

definition extendMin :: "real option \<Rightarrow> real \<Rightarrow> real option" where
  "extendMin m v = Some (case m of None \<Rightarrow> v | Some w \<Rightarrow> min w v)"

definition extendMax :: "real option \<Rightarrow> real \<Rightarrow> real option" where
  "extendMax m v = Some (case m of None \<Rightarrow> v | Some w \<Rightarrow> max w v)"

definition fitView :: "State \<Rightarrow> real \<Rightarrow> real \<Rightarrow> real \<Rightarrow> real \<Rightarrow> State" where
  "fitView st minX maxX minY maxY =
     (let dataWidth = maxX - minX;
          dataHeight = maxY - minY
      in if dataWidth = 0 \<and> dataHeight = 0 then
           let v0 = initialViewState st;
               v1 = v0\<lparr>panX := canvasWidth st / 2 - minX * scale v0\<rparr>;
               v2 = v1\<lparr>panY := canvasHeight st / 2 - minY * scale v1\<rparr>
           in st\<lparr>viewState := v2, initialViewState := v2\<rparr>
         else
           let padding = 50;
               canvasPaddedWidth = canvasWidth st - 2 * padding;
               canvasPaddedHeight = canvasHeight st - 2 * padding;
               scaleX = (if dataWidth > 0 then canvasPaddedWidth / dataWidth else 1);
               scaleY = (if dataHeight > 0 then canvasPaddedHeight / dataHeight else 1);
               v1 = (viewState st)\<lparr>scale := min (min scaleX scaleY) 5\<rparr>;
               v2 = v1\<lparr>scale := max (scale v1) 0.01\<rparr>;
               dataCenterX = minX + dataWidth / 2;
               dataCenterY = minY + dataHeight / 2;
               v3 = v2\<lparr>panX := canvasWidth st / 2 - dataCenterX * scale v2\<rparr>;
               v4 = v3\<lparr>panY := canvasHeight st / 2 - dataCenterY * scale v3\<rparr>
           in st\<lparr>viewState := v4, initialViewState := v4\<rparr>)"

definition resetViewAndFitTracks :: "State \<Rightarrow> State" where
  "resetViewAndFitTracks st =
     (if \<not> reglInitialized st \<or> allTracksData st = [] then st\<lparr>viewState := initialViewState st\<rparr>
      else
        let points = concat (map translatedPoints (allTracksData st));
            xs = map px points;
            ys = map py points
        in case (foldl extendMin None xs, foldl extendMax None xs,
                 foldl extendMin None ys, foldl extendMax None ys) of
             (Some minX, Some maxX, Some minY, Some maxY) \<Rightarrow> fitView st minX maxX minY maxY
           | _ \<Rightarrow> st\<lparr>viewState := initialViewState st\<rparr>)"

section \<open>Loading a batch of activities\<close>

text \<open>
  What the stream request of one activity can come to: the request or the decoding of
  its body throws, the response is not \<^verbatim>\<open>ok\<close>, or the body is decoded. In a decoded
  body, \<open>latlng_data\<close> is \<open>None\<close> when \<^verbatim>\<open>streams && streams.latlng && streams.latlng.data\<close>
  is falsy.
\<close>

record StreamsJson =
  latlng_data :: "LatLngData option"
  time_data :: "real list option"
  distance_data :: "real list option"

datatype FetchResult = FetchThrows | ResponseNotOk | ResponseJson StreamsJson

datatype ActivitiesResponse =
  ActivitiesFailed
  | ActivitiesOk "(ActivityInfo \<times> FetchResult) list"

text \<open>The value that the promise of one activity resolves to; \<open>None\<close> is \<^verbatim>\<open>null\<close>.\<close>

definition streamPromise :: "ActivityInfo \<Rightarrow> FetchResult \<Rightarrow> StreamData option" where
  "streamPromise activity res =
     (if \<not> a_has_polyline activity then None
      else case res of
             FetchThrows \<Rightarrow> None
           | ResponseNotOk \<Rightarrow> None
           | ResponseJson streams \<Rightarrow>
               (case latlng_data streams of
                  Some d \<Rightarrow> Some \<lparr> activityInfo = activity, latlngStream = d,
                                   timeStream = time_data streams,
                                   distStream = distance_data streams \<rparr>
                | None \<Rightarrow> None))"

text \<open>
  The click listener of the load button, given the outcome of the request for the
  activity list and, with each activity, the outcome of its stream request. The listener
  first empties the dataset (\<open>clearDataset\<close>); \<open>resolvedStreams\<close> is the array of the
  promises' values without the \<^verbatim>\<open>null\<close> entries. When \<^verbatim>\<open>processStravaData\<close> throws,
  the \<^verbatim>\<open>catch\<close> of the listener takes over and the calls that follow it in the
  \<^verbatim>\<open>try\<close> block are not made.
\<close>

definition clearDataset :: "State \<Rightarrow> State" where
  "clearDataset st =
     st\<lparr> allTracksData := [], activityMetadata := Map.empty, activityTypes := [],
         pointPresenceGrid := Map.empty, activeActivityFilters := Map.empty \<rparr>"

definition resolvedStreams :: "(ActivityInfo \<times> FetchResult) list \<Rightarrow> StreamData list" where
  "resolvedStreams activities =
     (let streamPromises = map (\<lambda>(activity, res). streamPromise activity res) activities
      in map the (filter (\<lambda>s. s \<noteq> None) streamPromises))"

definition loadActivities :: "State \<Rightarrow> ActivitiesResponse \<Rightarrow> State" where
  "loadActivities st response =
     (if \<not> reglInitialized st then st
      else
        let st0 = clearDataset st
        in case response of
             ActivitiesFailed \<Rightarrow> st0
           | ActivitiesOk activities \<Rightarrow>
               if activities = [] then st0
               else
                 case processStravaData st0 (resolvedStreams activities) of
                   Threw st1 \<Rightarrow> st1
                 | Completed st1 \<Rightarrow>
                     resetViewAndFitTracks (prepareDataForWebGL (calculateAllSegmentOverlaps
                       (updateActivityToggles st1))))"

text \<open>
  The entries of a batch that end as tracks when the load completes: the activity has a
  summary polyline, its stream request gave a body with latlng data, and the data has a
  length of two or more. \<open>entryThrows\<close> holds of the entries whose stream makes
  \<^verbatim>\<open>processStravaData\<close> throw.
\<close>

definition usableStream :: "ActivityInfo \<times> FetchResult \<Rightarrow> bool" where
  "usableStream e =
     (a_has_polyline (fst e) \<and>
      (case snd e of
         ResponseJson streams \<Rightarrow>
           (case latlng_data streams of
              Some d \<Rightarrow> \<not> shortStream d
            | None \<Rightarrow> False)
       | _ \<Rightarrow> False))"

definition entryThrows :: "ActivityInfo \<times> FetchResult \<Rightarrow> bool" where
  "entryThrows e =
     (case streamPromise (fst e) (snd e) of
        Some sd \<Rightarrow> streamThrows sd
      | None \<Rightarrow> False)"

text \<open>
  In the words of the specification: a stream request that succeeded with latlng data.
\<close>

definition fetchSucceededWithLatlng :: "FetchResult \<Rightarrow> bool" where
  "fetchSucceededWithLatlng res =
     (case res of
        ResponseJson streams \<Rightarrow> latlng_data streams \<noteq> None
      | _ \<Rightarrow> False)"

section \<open>Picking a track\<close>

text \<open>Reading a JavaScript array: \<open>None\<close> is \<^verbatim>\<open>undefined\<close>.\<close>

definition arrayGet :: "'a list \<Rightarrow> nat \<Rightarrow> 'a option" where
  "arrayGet xs i = (if i < length xs then Some (xs ! i) else None)"

text \<open>
  The point read from the position buffer for a vertex index. A coordinate that is
  \<^verbatim>\<open>undefined\<close> makes every distance computed from the point \<^verbatim>\<open>NaN\<close>, so that such a
  point is \<open>None\<close> as a whole.
\<close>

definition vertexAt :: "Buffers \<Rightarrow> nat \<Rightarrow> Point option" where
  "vertexAt buf idx =
     (case (arrayGet (positions buf) (idx * 2), arrayGet (positions buf) (idx * 2 + 1)) of
        (Some vx, Some vy) \<Rightarrow> Some \<lparr> px = vx, py = vy \<rparr>
      | _ \<Rightarrow> None)"

text \<open>
  \<^verbatim>\<open>bestMatch\<close>: \<open>bm_trackId = None\<close> is \<^verbatim>\<open>null\<close> (or \<^verbatim>\<open>undefined\<close>),
  \<open>bm_distance = None\<close> is \<^verbatim>\<open>Infinity\<close>.
\<close>

record BestMatch =
  bm_trackId :: "nat option"
  bm_distance :: "real option"

definition belowBest :: "real \<Rightarrow> real option \<Rightarrow> bool" where
  "belowBest d best = (case best of None \<Rightarrow> True | Some b \<Rightarrow> d < b)"

text \<open>
  The update of \<^verbatim>\<open>bestMatch\<close> for a segment at distance \<open>d\<close>: the segment replaces
  the best match when it is below the tolerance and strictly nearer.
\<close>

definition updateBest :: "real \<Rightarrow> BestMatch \<Rightarrow> nat option \<Rightarrow> real \<Rightarrow> BestMatch" where
  "updateBest sensitivityInWorld bestMatch segmentTrackId d =
     (if d < sensitivityInWorld \<and> belowBest d (bm_distance bestMatch)
      then \<lparr> bm_trackId = segmentTrackId, bm_distance = Some d \<rparr>
      else bestMatch)"

text \<open>
  One iteration of the loop over the index buffer; \<open>idx2\<close> is \<open>None\<close> when the buffer
  ends after \<open>idx1\<close>. A distance that is \<^verbatim>\<open>NaN\<close> compares false and leaves
  \<^verbatim>\<open>bestMatch\<close> as it is.
\<close>

definition pickStep :: "State \<Rightarrow> Point \<Rightarrow> real \<Rightarrow> BestMatch \<Rightarrow> nat \<Rightarrow> nat option \<Rightarrow> BestMatch" where
  "pickStep st click sensitivityInWorld bestMatch idx1 idx2 =
     (let buf = webGLTrackBuffers st;
          v1 = vertexAt buf idx1;
          v2 = (case idx2 of Some j \<Rightarrow> vertexAt buf j | None \<Rightarrow> None);
          segmentTrackId = arrayGet (segmentTrackIds buf) idx1;
          trackMeta = (case segmentTrackId of Some tid \<Rightarrow> activityMetadata st tid | None \<Rightarrow> None)
      in if (case trackMeta of
               Some m \<Rightarrow> \<not> filterActive (activeActivityFilters st) (m_type m)
             | None \<Rightarrow> False)
         then bestMatch
         else case (v1, v2) of
                (Some a, Some b) \<Rightarrow>
                  (case distancePointToSegment click a b of
                     Some d \<Rightarrow> updateBest sensitivityInWorld bestMatch segmentTrackId d
                   | None \<Rightarrow> bestMatch)
              | _ \<Rightarrow> bestMatch)"

fun pickLoop :: "State \<Rightarrow> Point \<Rightarrow> real \<Rightarrow> nat list \<Rightarrow> BestMatch \<Rightarrow> BestMatch" where
  "pickLoop st click sens (idx1 # idx2 # rest) bestMatch =
     pickLoop st click sens rest (pickStep st click sens bestMatch idx1 (Some idx2))"
| "pickLoop st click sens [idx1] bestMatch = pickStep st click sens bestMatch idx1 None"
| "pickLoop st click sens [] bestMatch = bestMatch"

text \<open>
  The search of the click listener for a position relative to the canvas: the conversion
  to world coordinates, the tolerance and the loop.
\<close>

definition findBestMatch :: "State \<Rightarrow> real \<Rightarrow> real \<Rightarrow> BestMatch" where
  "findBestMatch st clickX_screen clickY_screen =
     (let clickX_world = (clickX_screen - panX (viewState st)) / scale (viewState st);
          clickY_world = (clickY_screen - panY (viewState st)) / scale (viewState st);
          sensitivityInWorld = CLICK_SENSITIVITY_PIXELS / scale (viewState st)
      in pickLoop st \<lparr> px = clickX_world, py = clickY_world \<rparr> sensitivityInWorld
           (indices (webGLTrackBuffers st)) \<lparr> bm_trackId = None, bm_distance = None \<rparr>)"

text \<open>
  For the statement of what the search selects: a track is hidden for the search when its
  metadata has a type that the filter does not show, and the candidates of a click are
  the segments of the tracks that are not hidden, in the order of the buffer, each as the
  identifier of its track and its distance from the click.
\<close>

definition hiddenByFilter :: "State \<Rightarrow> nat \<Rightarrow> bool" where
  "hiddenByFilter st tid =
     (case activityMetadata st tid of
        Some m \<Rightarrow> \<not> filterActive (activeActivityFilters st) (m_type m)
      | None \<Rightarrow> False)"

definition pickCandidates :: "State \<Rightarrow> Point \<Rightarrow> (Track \<times> Segment) list \<Rightarrow> (nat \<times> real) list" where
  "pickCandidates st click segs =
     concat (map (\<lambda>e. if hiddenByFilter st (trackId (fst e)) then []
                       else case distancePointToSegment click (p1 (snd e)) (p2 (snd e)) of
                              Some d \<Rightarrow> [(trackId (fst e), d)]
                            | None \<Rightarrow> []) segs)"

datatype PopupAction = ShowPopup Metadata real real | HidePopup | NoAction

text \<open>
  The click listener. \<open>rectLeft\<close> and \<open>rectTop\<close> are the corner of the canvas in the
  client area. An identifier 0 is falsy, as \<^verbatim>\<open>null\<close> is.
\<close>

definition handleCanvasClickForPopup ::
  "State \<Rightarrow> real \<Rightarrow> real \<Rightarrow> real \<Rightarrow> real \<Rightarrow> PopupAction" where
  "handleCanvasClickForPopup st clientX clientY rectLeft rectTop =
     (if isPanning st then NoAction
      else if \<not> reglInitialized st \<or> positions (webGLTrackBuffers st) = [] then NoAction
      else
        let bestMatch = findBestMatch st (clientX - rectLeft) (clientY - rectTop)
        in case bm_trackId bestMatch of
             Some tid \<Rightarrow>
               if tid \<noteq> 0 then
                 (case activityMetadata st tid of
                    Some trackInfo \<Rightarrow> ShowPopup trackInfo clientX clientY
                  | None \<Rightarrow> NoAction)
               else HidePopup
           | None \<Rightarrow> HidePopup)"

section \<open>Example data\<close>

definition exampleActivity :: "nat \<Rightarrow> string \<Rightarrow> ActivityInfo" where
  "exampleActivity n t =
     \<lparr> a_id = n, a_name = ''Lap'', a_type = Some t, a_has_polyline = True,
       a_start_date_local = ''2024-05-01T08:00:00Z'', a_distance = 1000, a_moving_time = 300,
       a_elapsed_time = 320, a_total_elevation_gain = 5 \<rparr>"

definition exampleView :: ViewState where
  "exampleView = \<lparr> centerX = 0, centerY = 0, scale = 1, panX = 400, panY = 300 \<rparr>"

definition exampleState :: State where
  "exampleState =
     \<lparr> reglInitialized = True, canvasWidth = 800, canvasHeight = 600, allTracksData = [],
       activityMetadata = Map.empty, activityTypes = [], activeActivityFilters = Map.empty,
       viewState = exampleView, initialViewState = exampleView, isPanning = False,
       pointPresenceGrid = Map.empty, webGLTrackBuffers = emptyBuffers \<rparr>"

definition exampleStream :: "nat \<Rightarrow> string \<Rightarrow> LatLngEntry list \<Rightarrow> StreamData" where
  "exampleStream n t entries =
     \<lparr> activityInfo = exampleActivity n t, latlngStream = ArrayData entries, timeStream = None,
       distStream = None \<rparr>"

definition exampleStreams :: "StreamData list" where
  "exampleStreams =
     [exampleStream 5 ''Ride'' [LatLng 1 1],
      exampleStream 7 ''Run'' [LatLng 0 0, LatLng 0 (1 / 500)]]"

definition exampleJson :: "LatLngEntry list \<Rightarrow> FetchResult" where
  "exampleJson entries =
     ResponseJson \<lparr> latlng_data = Some (ArrayData entries), time_data = None,
                    distance_data = None \<rparr>"

definition exampleBatch :: "(ActivityInfo \<times> FetchResult) list" where
  "exampleBatch =
     [(exampleActivity 5 ''Ride'', exampleJson [LatLng 1 1]),
      (exampleActivity 7 ''Run'', exampleJson [LatLng 0 0, LatLng 0 (1 / 500), LatLng 0 (11 / 5000)]),
      (exampleActivity 9 ''Run'', ResponseNotOk)]"

definition exampleTwins :: "(ActivityInfo \<times> FetchResult) list" where
  "exampleTwins =
     [(exampleActivity 1 ''Run'', exampleJson [LatLng 0 0, LatLng 0 (1 / 5000)]),
      (exampleActivity 2 ''Ride'', exampleJson [LatLng 0 0, LatLng 0 (1 / 5000)])]"

text \<open>
  Two tracks at a right angle, from the origin along the two axes, with the state after
  their load and the segments of its buffers, and a batch whose second stream has a
  \<^verbatim>\<open>null\<close> entry.
\<close>

definition exampleCross :: "(ActivityInfo \<times> FetchResult) list" where
  "exampleCross =
     [(exampleActivity 1 ''Run'', exampleJson [LatLng 0 0, LatLng 0 (1 / 5000)]),
      (exampleActivity 2 ''Ride'', exampleJson [LatLng 0 0, LatLng (- 1 / 5000) 0])]"

definition exampleCrossLoaded :: State where
  "exampleCrossLoaded = loadActivities exampleState (ActivitiesOk exampleCross)"

definition exampleCrossSegments :: "(Track \<times> Segment) list" where
  "exampleCrossSegments =
     visibleSegments (activeActivityFilters exampleCrossLoaded) (allTracksData exampleCrossLoaded)"

definition exampleBroken :: "(ActivityInfo \<times> FetchResult) list" where
  "exampleBroken =
     [(exampleActivity 1 ''Run'', exampleJson [LatLng 0 0, LatLng 0 (1 / 5000)]),
      (exampleActivity 2 ''Ride'', exampleJson [NullEntry, LatLng 0 0]),
      (exampleActivity 3 ''Run'', exampleJson [LatLng 0 0, LatLng 0 (1 / 5000)])]"

section \<open>Grid keys are injective\<close>

lemma digitChar_inj: "a < 10 \<Longrightarrow> b < 10 \<Longrightarrow> digitChar a = digitChar b \<Longrightarrow> a = b"
proof -
  have d: "distinct ''0123456789''" by simp
  assume "a < 10" "b < 10" "digitChar a = digitChar b"
  then show ?thesis
    using nth_eq_iff_index_eq [OF d, of a b] by (simp add: digitChar_def)
qed

lemma digitChar_digit: "d < 10 \<Longrightarrow> digitChar d \<in> digitChars"
  unfolding digitChar_def digitChars_def by (rule nth_mem) simp

lemma dash_no_digit: "CHR ''-'' \<notin> digitChars"
  by (simp add: digitChars_def)

lemma underscore_no_digit: "CHR ''_'' \<notin> digitChars"
  by (simp add: digitChars_def)

lemma natToString_nonempty: "natToString n \<noteq> []"
  by (subst natToString.simps) simp

lemma natToString_digits: "set (natToString n) \<subseteq> digitChars"
proof (induction n rule: natToString.induct)
  case (1 n)
  show ?case
  proof (cases "n < 10")
    case True
    then show ?thesis
      using digitChar_digit [of n] by (subst natToString.simps) simp
  next
    case False
    have "n mod 10 < 10" by simp
    then have "digitChar (n mod 10) \<in> digitChars" by (rule digitChar_digit)
    with False "1.IH" show ?thesis
      by (subst natToString.simps) simp
  qed
qed

lemma natToString_inj: "natToString m = natToString n \<Longrightarrow> m = n"
proof (induction m arbitrary: n rule: natToString.induct)
  case (1 m)
  show ?case
  proof (cases "m < 10")
    case m: True
    show ?thesis
    proof (cases "n < 10")
      case True
      with m "1.prems" show ?thesis
        by (simp add: natToString.simps [of m] natToString.simps [of n] digitChar_inj)
    next
      case False
      with m "1.prems" natToString_nonempty [of "n div 10"] show ?thesis
        by (simp add: natToString.simps [of m] natToString.simps [of n])
    qed
  next
    case m: False
    show ?thesis
    proof (cases "n < 10")
      case True
      with m "1.prems" natToString_nonempty [of "m div 10"] show ?thesis
        by (simp add: natToString.simps [of m] natToString.simps [of n])
    next
      case False
      with m "1.prems" have eq: "natToString (m div 10) = natToString (n div 10)"
        and last: "digitChar (m mod 10) = digitChar (n mod 10)"
        by (simp_all add: natToString.simps [of m] natToString.simps [of n])
      from "1.IH" [OF m eq] have "m div 10 = n div 10" .
      moreover from last have "m mod 10 = n mod 10"
        by (intro digitChar_inj) simp_all
      ultimately show ?thesis
        by (metis div_mult_mod_eq)
    qed
  qed
qed

lemma natToString_no_dash: "natToString n \<noteq> CHR ''-'' # s"
proof
  assume "natToString n = CHR ''-'' # s"
  then have "CHR ''-'' \<in> set (natToString n)" by simp
  with natToString_digits [of n] dash_no_digit show False by blast
qed

lemma numberToString_no_underscore: "CHR ''_'' \<notin> set (numberToString i)"
proof -
  have "\<And>n. CHR ''_'' \<notin> set (natToString n)"
    using natToString_digits underscore_no_digit by blast
  then show ?thesis by (simp add: numberToString_def)
qed

lemma numberToString_inj: "numberToString i = numberToString j \<Longrightarrow> i = j"
proof -
  assume eq: "numberToString i = numberToString j"
  consider "i < 0" "j < 0" | "i < 0" "0 \<le> j" | "0 \<le> i" "j < 0" | "0 \<le> i" "0 \<le> j"
    by linarith
  then show ?thesis
  proof cases
    case 1
    with eq have "natToString (nat (- i)) = natToString (nat (- j))"
      by (simp add: numberToString_def)
    then have "nat (- i) = nat (- j)" by (rule natToString_inj)
    with 1 show ?thesis by simp
  next
    case 2
    with eq have "natToString (nat j) = CHR ''-'' # natToString (nat (- i))"
      by (simp add: numberToString_def)
    with natToString_no_dash show ?thesis by blast
  next
    case 3
    with eq have "natToString (nat i) = CHR ''-'' # natToString (nat (- j))"
      by (simp add: numberToString_def)
    with natToString_no_dash show ?thesis by blast
  next
    case 4
    with eq have "natToString (nat i) = natToString (nat j)"
      by (simp add: numberToString_def)
    then have "nat i = nat j" by (rule natToString_inj)
    with 4 show ?thesis by simp
  qed
qed

lemma append_sep_eq:
  "x \<notin> set xs \<Longrightarrow> x \<notin> set xs' \<Longrightarrow> xs @ x # ys = xs' @ x # ys' \<longleftrightarrow> xs = xs' \<and> ys = ys'"
proof (induction xs arbitrary: xs')
  case Nil
  then show ?case by (cases xs') auto
next
  case (Cons a xs)
  then show ?case by (cases xs') auto
qed

lemma gridKey_inj: "gridKey a b = gridKey c d \<longleftrightarrow> a = c \<and> b = d"
proof -
  have "gridKey a b = gridKey c d \<longleftrightarrow>
      numberToString a = numberToString c \<and> numberToString b = numberToString d"
    using numberToString_no_underscore [of a] numberToString_no_underscore [of c]
    by (simp add: gridKey_def append_sep_eq)
  then show ?thesis
    using numberToString_inj by blast
qed

section \<open>Properties of the style mapping\<close>

lemma thicknessRatio_mono: "c1 \<le> c2 \<Longrightarrow> thicknessRatio c1 \<le> thicknessRatio c2"
  unfolding thicknessRatio_def MAX_OVERLAPS_FOR_FULL_EFFECT_def MIN_OVERLAPS_FOR_EFFECT_START_def
  by (simp add: min_def max_def)

lemma colorRatio_mono: "c1 \<le> c2 \<Longrightarrow> colorRatio c1 \<le> colorRatio c2"
  unfolding colorRatio_def MAX_OVERLAPS_FOR_FULL_EFFECT_def colorFadeStartReferenceCount_def
  by (simp add: min_def max_def)

text \<open>
  C4. For overlap counts \<open>1 < count1 < count2\<close> up to the full-effect threshold, the
  thickness does not decrease from \<open>count1\<close> to \<open>count2\<close>, and neither does the red
  channel of the colour.
\<close>

theorem style_monotonic:
  assumes "1 < count1" and "count1 < count2"
    and "real count2 \<le> MAX_OVERLAPS_FOR_FULL_EFFECT"
  shows "segmentThickness count1 \<le> segmentThickness count2
       \<and> segmentColorRGB count1 ! 0 \<le> segmentColorRGB count2 ! 0"
proof
  have le: "count1 \<le> count2" using assms(2) by simp
  have "thicknessRatio count1 * 16 \<le> thicknessRatio count2 * 16"
    using thicknessRatio_mono [OF le] by simp
  then show "segmentThickness count1 \<le> segmentThickness count2"
    using assms(1,2)
    by (simp add: segmentThickness_def MIN_OVERLAP_THICKNESS_START_def
        MAX_OVERLAP_THICKNESS_def Let_def min_def max_def)
  show "segmentColorRGB count1 ! 0 \<le> segmentColorRGB count2 ! 0"
    using assms(1,2) colorRatio_mono [OF le]
    by (simp add: segmentColorRGB_def NO_OVERLAP_TRACK_COLOR_RGB_def
        MAX_OVERLAP_TRACK_COLOR_RGB_def)
qed

theorem style_monotonic_witness:
  "segmentThickness 2 = 4 \<and> segmentThickness 4 = 44 / 3
   \<and> segmentThickness 2 \<le> segmentThickness 4
   \<and> segmentColorRGB 2 ! 0 = 1 / 4 \<and> segmentColorRGB 4 ! 0 = 3 / 4
   \<and> segmentColorRGB 2 ! 0 \<le> segmentColorRGB 4 ! 0"
  using style_monotonic [of 2 4]
  by (simp add: segmentThickness_def thicknessRatio_def segmentColorRGB_def colorRatio_def
      NO_OVERLAP_TRACK_COLOR_RGB_def MAX_OVERLAP_TRACK_COLOR_RGB_def
      MIN_OVERLAP_THICKNESS_START_def MAX_OVERLAP_THICKNESS_def
      MAX_OVERLAPS_FOR_FULL_EFFECT_def MIN_OVERLAPS_FOR_EFFECT_START_def
      colorFadeStartReferenceCount_def)

section \<open>Properties of the view transform\<close>

text \<open>
  The conversion of the listeners inverts the formula of the specification, and the wheel
  listener keeps the anchor fixed with respect to that formula.
\<close>

lemma screenToWorld_specWorldToScreen:
  assumes "0 < scale vs"
  shows "screenToWorld vs (specWorldToScreen vs w) = w"
  using assms by (simp add: screenToWorld_def specWorldToScreen_def)

lemma wheelListener_anchor_spec:
  assumes "0.01 \<le> scale vs" and "scale vs \<le> 100"
  shows "specWorldToScreen (wheelListener vs deltaY mouseX mouseY)
           (screenToWorld vs (mouseX, mouseY)) = (mouseX, mouseY)"
  using assms
  by (simp add: wheelListener_def zoomAtPoint_def specWorldToScreen_def screenToWorld_def Let_def)

text \<open>
  The matrix of the draw command translates by the pan times the scale. It agrees with
  the formula of the specification exactly where the scale is 1 or the pan is zero, and
  exactly there the conversion of the listeners inverts it.
\<close>

lemma viewUniform_specWorldToScreen:
  "viewUniform vs w = specWorldToScreen vs w \<longleftrightarrow>
     (scale vs = 1 \<or> (panX vs = 0 \<and> panY vs = 0))"
  by (auto simp: viewUniform_def specWorldToScreen_def Let_def algebra_simps)

lemma screenToWorld_viewUniform:
  assumes "0 < scale vs"
  shows "screenToWorld vs (viewUniform vs w) = w \<longleftrightarrow>
     (scale vs = 1 \<or> (panX vs = 0 \<and> panY vs = 0))"
proof -
  have x: "(scale vs * px w + panX vs * scale vs - panX vs) / scale vs = px w
             \<longleftrightarrow> panX vs * (scale vs - 1) = 0"
    using assms by (simp add: field_simps)
  have y: "(scale vs * py w + panY vs * scale vs - panY vs) / scale vs = py w
             \<longleftrightarrow> panY vs * (scale vs - 1) = 0"
    using assms by (simp add: field_simps)
  have "screenToWorld vs (viewUniform vs w) = w \<longleftrightarrow>
          (scale vs * px w + panX vs * scale vs - panX vs) / scale vs = px w
        \<and> (scale vs * py w + panY vs * scale vs - panY vs) / scale vs = py w"
    by (cases w) (simp add: screenToWorld_def viewUniform_def Let_def)
  then show ?thesis unfolding x y by auto
qed

text \<open>
  C5. The round trip fails for the map with which the program draws. In the view with
  scale 2 and pan \<open>(30, 40)\<close> the world point \<open>(7, -5)\<close> is drawn at the canvas position
  \<open>(74, 70)\<close>, and the conversion of the click listener takes that position to the world
  point \<open>(22, 15)\<close>.
\<close>

theorem view_round_trip_fails:
  "viewUniform \<lparr>centerX = 0, centerY = 0, scale = 2, panX = 30, panY = 40\<rparr> \<lparr>px = 7, py = -5\<rparr>
     = (74, 70)
   \<and> screenToWorld \<lparr>centerX = 0, centerY = 0, scale = 2, panX = 30, panY = 40\<rparr>
       (viewUniform \<lparr>centerX = 0, centerY = 0, scale = 2, panX = 30, panY = 40\<rparr>
          \<lparr>px = 7, py = -5\<rparr>)
     = \<lparr>px = 22, py = 15\<rparr>"
  by (simp add: viewUniform_def screenToWorld_def)

text \<open>
  C6. The wheel listener does not keep the drawn point under the cursor in place. In the
  view with scale 1 and pan \<open>(400, 300)\<close> the world point \<open>(100, 0)\<close> is drawn at the canvas
  position \<open>(500, 300)\<close>, and it is the world position that the listener computes for a
  cursor there. After one step of the wheel at that position the scale is \<open>11/10\<close>, the
  pan is \<open>(390, 300)\<close>, and the point is drawn at \<open>(539, 330)\<close>.
\<close>

theorem wheel_zoom_moves_anchor:
  "viewUniform exampleView \<lparr>px = 100, py = 0\<rparr> = (500, 300)
   \<and> screenToWorld exampleView (500, 300) = \<lparr>px = 100, py = 0\<rparr>
   \<and> wheelListener exampleView (- 1) 500 300
       = \<lparr>centerX = 0, centerY = 0, scale = 11 / 10, panX = 390, panY = 300\<rparr>
   \<and> viewUniform (wheelListener exampleView (- 1) 500 300) \<lparr>px = 100, py = 0\<rparr> = (539, 330)"
  by (simp add: viewUniform_def screenToWorld_def wheelListener_def zoomAtPoint_def
      zoomFactor_def exampleView_def Let_def)

text \<open>
  The same at a scale other than 1, for the world point that is drawn under the cursor:
  in the view with scale 2 and pan \<open>(30, 40)\<close> the point \<open>(-5, -10)\<close> is drawn at \<open>(50, 60)\<close>,
  and after a zoom there by the factor \<open>1/2\<close> it is drawn at \<open>(35, 40)\<close>.
\<close>

lemma zoomAtPoint_moves_drawn_point:
  "viewUniform \<lparr>centerX = 0, centerY = 0, scale = 2, panX = 30, panY = 40\<rparr> \<lparr>px = -5, py = -10\<rparr>
     = (50, 60)
   \<and> zoomAtPoint \<lparr>centerX = 0, centerY = 0, scale = 2, panX = 30, panY = 40\<rparr> 50 60 (1 / 2)
     = \<lparr>centerX = 0, centerY = 0, scale = 1, panX = 40, panY = 50\<rparr>
   \<and> viewUniform (zoomAtPoint \<lparr>centerX = 0, centerY = 0, scale = 2, panX = 30, panY = 40\<rparr>
        50 60 (1 / 2)) \<lparr>px = -5, py = -10\<rparr> = (35, 40)"
  by (simp add: viewUniform_def zoomAtPoint_def Let_def)

section \<open>Properties of the distance function\<close>

text \<open>
  C10. \<open>distancePointToSegment\<close> never divides by zero: it returns a distance for every
  point and segment, and for a segment whose endpoints coincide that distance is the
  Euclidean distance from the point to the endpoint.
\<close>

theorem distancePointToSegment_total:
  "(\<exists>d. distancePointToSegment p a b = Some d)
   \<and> (a = b \<longrightarrow> distancePointToSegment p a b
                = Some (sqrt ((px p - px a)\<^sup>2 + (py p - py a)\<^sup>2)))"
  by (simp add: distancePointToSegment_def divideChecked_def Let_def)

theorem distancePointToSegment_total_witness:
  "distancePointToSegment \<lparr>px = 3, py = 4\<rparr> \<lparr>px = 0, py = 0\<rparr> \<lparr>px = 0, py = 0\<rparr> = Some 5"
proof -
  have "sqrt ((3::real)\<^sup>2 + 4\<^sup>2) = sqrt (5\<^sup>2)" by simp
  also have "\<dots> = 5" by simp
  finally have s: "sqrt ((3::real)\<^sup>2 + 4\<^sup>2) = 5" .
  show ?thesis
    using distancePointToSegment_total
      [of "\<lparr>px = 3, py = 4\<rparr>" "\<lparr>px = 0, py = 0\<rparr>" "\<lparr>px = 0, py = 0\<rparr>"] s
    by simp
qed

section \<open>The grid and the tracks after \<^verbatim>\<open>processStravaData\<close>\<close>

lemma gridCell_gridAdd:
  "set (gridCell (gridAdd iid grid tp) gx gy) =
     set (gridCell grid gx gy) \<union>
     (if \<lfloor>px tp / GRID_CELL_SIZE\<rfloor> = gx \<and> \<lfloor>py tp / GRID_CELL_SIZE\<rfloor> = gy then {iid} else {})"
  by (auto simp: gridCell_def gridAdd_def Let_def gridKey_inj split: option.splits if_splits)

lemma gridCell_foldl_gridAdd:
  "set (gridCell (foldl (gridAdd iid) grid pts) gx gy) =
     set (gridCell grid gx gy) \<union>
     (if \<exists>p \<in> set pts. \<lfloor>px p / GRID_CELL_SIZE\<rfloor> = gx \<and> \<lfloor>py p / GRID_CELL_SIZE\<rfloor> = gy
      then {iid} else {})"
proof (induction pts arbitrary: grid)
  case Nil
  then show ?case by simp
next
  case (Cons p pts)
  show ?case
    unfolding foldl_Cons Cons.IH gridCell_gridAdd by auto
qed

lemma gridAdd_twice:
  assumes "\<lfloor>px tp' / GRID_CELL_SIZE\<rfloor> = \<lfloor>px tp / GRID_CELL_SIZE\<rfloor>"
    and "\<lfloor>py tp' / GRID_CELL_SIZE\<rfloor> = \<lfloor>py tp / GRID_CELL_SIZE\<rfloor>"
  shows "gridAdd iid (gridAdd iid grid tp) tp' = gridAdd iid grid tp"
  using assms by (auto simp: gridAdd_def Let_def fun_eq_iff split: option.splits)

lemma entryPoints_length: "entryPoints entries = Some raw \<Longrightarrow> length raw = length entries"
  by (induction entries arbitrary: raw rule: entryPoints.induct) (auto split: option.splits)

lemma originalPoints_length:
  assumes "originalPoints d = Some raw"
  shows "shortStream d \<longleftrightarrow> length raw < 2"
  using assms
  by (cases d) (simp_all add: originalPoints_def shortStream_def dataLength_def entryPoints_length)

lemma shortStream_not_throws: "shortStream (latlngStream sd) \<Longrightarrow> \<not> streamThrows sd"
  by (simp add: streamThrows_def)

lemma processStream_throws: "processStream st sd i = None \<longleftrightarrow> streamThrows sd"
  by (auto simp: processStream_def streamThrows_def Let_def split: option.splits)

lemma processStream_short: "shortStream (latlngStream sd) \<Longrightarrow> processStream st sd i = Some st"
  by (simp add: processStream_def)

lemma processStream_track:
  assumes "\<not> streamThrows sd" and "\<not> shortStream (latlngStream sd)"
  shows "\<exists>st'. processStream st sd i = Some st' \<and>
           allTracksData st' = allTracksData st @ [streamTrack sd i] \<and>
           pointPresenceGrid st' =
             foldl (gridAdd i) (pointPresenceGrid st) (translatedPoints (streamTrack sd i))"
  using assms
  by (auto simp: processStream_def streamThrows_def streamTrack_def trackForOverlap_def Let_def)

lemma reached_Cons:
  "reached (sd # rest) = (if streamThrows sd then [] else sd # reached rest)"
  by (simp add: reached_def)

lemma reached_all: "\<forall>sd \<in> set arr. \<not> streamThrows sd \<Longrightarrow> reached arr = arr"
  by (simp add: reached_def)

lemma processFrom_Completed:
  "(\<exists>st'. processFrom k st arr = Completed st') \<longleftrightarrow> (\<forall>sd \<in> set arr. \<not> streamThrows sd)"
proof (induction arr arbitrary: k st)
  case Nil
  then show ?case by simp
next
  case (Cons sd arr)
  show ?case
  proof (cases "processStream st sd k")
    case None
    then show ?thesis
      using processStream_throws [of st sd k] by simp
  next
    case (Some st')
    then have "\<not> streamThrows sd"
      using processStream_throws [of st sd k] by simp
    then show ?thesis
      using Some Cons.IH [of "Suc k" st'] by simp
  qed
qed

lemma tracks_processFrom:
  "allTracksData (resultState (processFrom k st arr)) =
     allTracksData st @
     map (\<lambda>(i, sd). streamTrack sd i)
       (filter (\<lambda>(i, sd). \<not> shortStream (latlngStream sd)) (enumerate k (reached arr)))"
proof (induction arr arbitrary: k st)
  case Nil
  then show ?case by (simp add: reached_def)
next
  case (Cons sd arr)
  consider (throws) "streamThrows sd"
    | (short) "shortStream (latlngStream sd)"
    | (track) "\<not> streamThrows sd" "\<not> shortStream (latlngStream sd)"
    by blast
  then show ?case
  proof cases
    case throws
    then have "processStream st sd k = None"
      by (simp add: processStream_throws)
    then show ?thesis
      using throws by (simp add: reached_Cons)
  next
    case short
    then show ?thesis
      using shortStream_not_throws [OF short] Cons.IH [of "Suc k" st]
      by (simp add: reached_Cons processStream_short)
  next
    case track
    from processStream_track [OF track, of st k]
    obtain st' where "processStream st sd k = Some st'"
      and "allTracksData st' = allTracksData st @ [streamTrack sd k]"
      by blast
    then show ?thesis
      using track Cons.IH [of "Suc k" st'] by (simp add: reached_Cons)
  qed
qed

lemma grid_processFrom:
  "j \<in> set (gridCell (pointPresenceGrid (resultState (processFrom k st arr))) gx gy) \<longleftrightarrow>
     j \<in> set (gridCell (pointPresenceGrid st) gx gy) \<or>
     (\<exists>sd. (j, sd) \<in> set (enumerate k (reached arr)) \<and> \<not> shortStream (latlngStream sd) \<and>
        (\<exists>p \<in> set (translatedPoints (streamTrack sd j)).
           \<lfloor>px p / GRID_CELL_SIZE\<rfloor> = gx \<and> \<lfloor>py p / GRID_CELL_SIZE\<rfloor> = gy))"
proof (induction arr arbitrary: k st)
  case Nil
  then show ?case by (simp add: reached_def)
next
  case (Cons sd arr)
  have notin: "\<And>sd'. (k, sd') \<notin> set (enumerate (Suc k) (reached arr))"
    by (auto simp: in_set_enumerate_eq)
  consider (throws) "streamThrows sd"
    | (short) "shortStream (latlngStream sd)"
    | (track) "\<not> streamThrows sd" "\<not> shortStream (latlngStream sd)"
    by blast
  then show ?case
  proof cases
    case throws
    then have "processStream st sd k = None"
      by (simp add: processStream_throws)
    then show ?thesis
      using throws by (simp add: reached_Cons)
  next
    case short
    then show ?thesis
      using shortStream_not_throws [OF short] Cons.IH [of "Suc k" st] notin
      by (auto simp: reached_Cons processStream_short)
  next
    case track
    from processStream_track [OF track, of st k]
    obtain st' where s: "processStream st sd k = Some st'"
      and g: "pointPresenceGrid st' =
        foldl (gridAdd k) (pointPresenceGrid st) (translatedPoints (streamTrack sd k))"
      by blast
    have r: "reached (sd # arr) = sd # reached arr"
      using track by (simp add: reached_Cons)
    show ?thesis
      unfolding processFrom.simps s option.case r enumerate_simps Cons.IH g
      using notin track(2) by (auto simp: gridCell_foldl_gridAdd)
  qed
qed

text \<open>
  An entry is among the reached ones when the body throws on none up to it, and the
  tracks that \<^verbatim>\<open>processStravaData\<close> pushes are without segments.
\<close>

lemma reached_nth:
  assumes "i < length arr" and "\<forall>j \<le> i. \<not> streamThrows (arr ! j)"
  shows "(i, arr ! i) \<in> set (enumerate 0 (reached arr))"
proof -
  let ?P = "\<lambda>sd. \<not> streamThrows sd"
  have "i < length (takeWhile ?P arr)"
  proof (rule ccontr)
    assume "\<not> i < length (takeWhile ?P arr)"
    then have le: "length (takeWhile ?P arr) \<le> i" by simp
    with assms(1) have "length (takeWhile ?P arr) < length arr" by simp
    then have "\<not> ?P (arr ! length (takeWhile ?P arr))"
      by (rule nth_length_takeWhile)
    with assms(2) le show False by blast
  qed
  then show ?thesis
    by (simp add: reached_def in_set_enumerate_eq takeWhile_nth)
qed

lemma reached_mem:
  assumes "(i, sd) \<in> set (enumerate 0 (reached arr))"
  shows "i < length arr" and "arr ! i = sd" and "\<not> streamThrows sd"
proof -
  let ?P = "\<lambda>sd. \<not> streamThrows sd"
  from assms have i: "i < length (takeWhile ?P arr)" and sd: "takeWhile ?P arr ! i = sd"
    by (simp_all add: reached_def in_set_enumerate_eq)
  have "length (takeWhile ?P arr) \<le> length arr"
    by (rule length_takeWhile_le)
  with i show "i < length arr" by simp
  from i sd show "arr ! i = sd" by (simp add: takeWhile_nth)
  from i have "takeWhile ?P arr ! i \<in> set (takeWhile ?P arr)" by simp
  then show "\<not> streamThrows sd"
    unfolding sd by (auto dest: set_takeWhileD)
qed

lemma streamTrack_raw:
  assumes "\<not> streamThrows sd" and "\<not> shortStream (latlngStream sd)"
  shows "\<exists>raw. originalPoints (latlngStream sd) = Some raw \<and> 2 \<le> length raw \<and>
           translatedPoints (streamTrack sd i) = translatedScaledPoints raw"
proof -
  from assms obtain raw where raw: "originalPoints (latlngStream sd) = Some raw"
    by (auto simp: streamThrows_def)
  with assms(2) originalPoints_length [OF raw] have "2 \<le> length raw" by simp
  with raw show ?thesis
    by (simp add: streamTrack_def trackForOverlap_def)
qed

lemma enumerate_functional:
  "(i, a) \<in> set (enumerate k xs) \<Longrightarrow> (i, b) \<in> set (enumerate k xs) \<Longrightarrow> a = b"
  by (auto simp: in_set_enumerate_eq)

section \<open>Normalization and grid membership\<close>

text \<open>
  C1. After \<open>processStravaData\<close> on a state without tracks, whether it completes or
  throws, every track comes from the stream at the index that is its internal identifier,
  that stream has two points or more, each of its points \<open>(lat, lon)\<close> is normalized to
  \<open>x = (lon - lon0) * GLOBAL_SCALE\<close> and \<open>y = - (lat - lat0) * GLOBAL_SCALE\<close> with
  \<open>(lat0, lon0)\<close> the first point of the stream, and the first normalized point is
  \<open>(0, 0)\<close>. Every stream of two points or more has its track, when the body throws on no
  stream up to it.
\<close>

theorem processStravaData_normalized:
  assumes "allTracksData st = []"
  shows "(\<forall>t \<in> set (allTracksData (resultState (processStravaData st arr))).
            internalId t < length arr \<and>
            (\<exists>raw. originalPoints (latlngStream (arr ! internalId t)) = Some raw \<and>
               2 \<le> length raw \<and>
               translatedPoints t =
                 map (\<lambda>p. \<lparr> px = (lon p - lon (hd raw)) * GLOBAL_SCALE,
                            py = - (lat p - lat (hd raw)) * GLOBAL_SCALE \<rparr>) raw) \<and>
            hd (translatedPoints t) = \<lparr> px = 0, py = 0 \<rparr>)
       \<and> (\<forall>i < length arr. \<forall>raw.
            (\<forall>j \<le> i. \<not> streamThrows (arr ! j)) \<and>
            originalPoints (latlngStream (arr ! i)) = Some raw \<and> 2 \<le> length raw \<longrightarrow>
            (\<exists>t \<in> set (allTracksData (resultState (processStravaData st arr))). internalId t = i))"
proof (intro conjI ballI allI impI)
  fix t
  assume "t \<in> set (allTracksData (resultState (processStravaData st arr)))"
  then obtain i sd where mem: "(i, sd) \<in> set (enumerate 0 (reached arr))"
    and len: "\<not> shortStream (latlngStream sd)"
    and t: "t = streamTrack sd i"
    using assms by (auto simp: processStravaData_def tracks_processFrom)
  from reached_mem [OF mem] have i: "i < length arr" and sd: "arr ! i = sd"
    and ok: "\<not> streamThrows sd"
    by simp_all
  have id: "internalId t = i" by (simp add: t streamTrack_def trackForOverlap_def)
  from streamTrack_raw [OF ok len, of i] obtain raw
    where raw: "originalPoints (latlngStream sd) = Some raw" and two: "2 \<le> length raw"
      and pts: "translatedPoints t = translatedScaledPoints raw"
    unfolding t by blast
  show "internalId t < length arr" using i id by simp
  have "translatedPoints t =
      map (\<lambda>p. \<lparr> px = (lon p - lon (hd raw)) * GLOBAL_SCALE,
                 py = - (lat p - lat (hd raw)) * GLOBAL_SCALE \<rparr>) raw"
    by (simp add: pts translatedScaledPoints_def translateScale_def)
  with raw two
  show "\<exists>raw. originalPoints (latlngStream (arr ! internalId t)) = Some raw \<and>
      2 \<le> length raw \<and>
      translatedPoints t =
        map (\<lambda>p. \<lparr> px = (lon p - lon (hd raw)) * GLOBAL_SCALE,
                   py = - (lat p - lat (hd raw)) * GLOBAL_SCALE \<rparr>) raw"
    unfolding id sd by blast
  from two have "raw \<noteq> []" by auto
  then show "hd (translatedPoints t) = \<lparr> px = 0, py = 0 \<rparr>"
    by (simp add: pts translatedScaledPoints_def translateScale_def hd_map)
next
  fix i raw
  assume i: "i < length arr"
    and h: "(\<forall>j \<le> i. \<not> streamThrows (arr ! j)) \<and>
      originalPoints (latlngStream (arr ! i)) = Some raw \<and> 2 \<le> length raw"
  then have mem: "(i, arr ! i) \<in> set (enumerate 0 (reached arr))"
    by (intro reached_nth) simp_all
  from h have len: "\<not> shortStream (latlngStream (arr ! i))"
    using originalPoints_length [of "latlngStream (arr ! i)" raw] by simp
  from mem len have
    "streamTrack (arr ! i) i \<in> set (allTracksData (resultState (processStravaData st arr)))"
    by (force simp: processStravaData_def tracks_processFrom)
  then show "\<exists>t \<in> set (allTracksData (resultState (processStravaData st arr))). internalId t = i"
    by (rule rev_bexI) (simp add: streamTrack_def trackForOverlap_def)
qed

theorem processStravaData_normalized_witness:
  "allTracksData exampleState = []
   \<and> map internalId (allTracksData (resultState (processStravaData exampleState exampleStreams)))
       = [1]
   \<and> map translatedPoints
         (allTracksData (resultState (processStravaData exampleState exampleStreams)))
       = [[\<lparr>px = 0, py = 0\<rparr>, \<lparr>px = 100, py = 0\<rparr>]]
   \<and> hd (translatedPoints
         (hd (allTracksData (resultState (processStravaData exampleState exampleStreams)))))
       = \<lparr>px = 0, py = 0\<rparr>"
proof -
  have e: "allTracksData exampleState = []"
    by (simp add: exampleState_def)
  have t: "allTracksData (resultState (processStravaData exampleState exampleStreams))
      = [\<lparr>trackId = 7, internalId = 1, trackType = ''run'',
           translatedPoints = [\<lparr>px = 0, py = 0\<rparr>, \<lparr>px = 100, py = 0\<rparr>],
           segmentsWithOverlap = []\<rparr>]"
    by code_simp
  from processStravaData_normalized [OF e, of exampleStreams]
  have "\<forall>t \<in> set (allTracksData (resultState (processStravaData exampleState exampleStreams))).
          hd (translatedPoints t) = \<lparr>px = 0, py = 0\<rparr>"
    by blast
  then have "hd (translatedPoints
        (hd (allTracksData (resultState (processStravaData exampleState exampleStreams)))))
      = \<lparr>px = 0, py = 0\<rparr>"
    by (simp add: t)
  then show ?thesis
    using e by (simp add: t)
qed

lemma own_cell_iff:
  assumes "allTracksData st = []" and "pointPresenceGrid st = Map.empty"
    and "t \<in> set (allTracksData (resultState (processStravaData st arr)))"
  shows "internalId t
           \<in> set (gridCell (pointPresenceGrid (resultState (processStravaData st arr))) gx gy)
      \<longleftrightarrow> (\<exists>p \<in> set (translatedPoints t).
             \<lfloor>px p / GRID_CELL_SIZE\<rfloor> = gx \<and> \<lfloor>py p / GRID_CELL_SIZE\<rfloor> = gy)"
proof -
  from assms(3) obtain i sd where mem: "(i, sd) \<in> set (enumerate 0 (reached arr))"
    and len: "\<not> shortStream (latlngStream sd)"
    and t: "t = streamTrack sd i"
    using assms(1) by (auto simp: processStravaData_def tracks_processFrom)
  have id: "internalId t = i"
    by (simp add: t streamTrack_def trackForOverlap_def)
  have empty: "gridCell (pointPresenceGrid st) gx gy = []"
    by (simp add: assms(2) gridCell_def)
  let ?Q = "\<lambda>sd'. \<exists>p \<in> set (translatedPoints (streamTrack sd' i)).
             \<lfloor>px p / GRID_CELL_SIZE\<rfloor> = gx \<and> \<lfloor>py p / GRID_CELL_SIZE\<rfloor> = gy"
  have "(\<exists>sd'. (i, sd') \<in> set (enumerate 0 (reached arr)) \<and>
           \<not> shortStream (latlngStream sd') \<and> ?Q sd')
        \<longleftrightarrow> ?Q sd"
  proof
    assume "\<exists>sd'. (i, sd') \<in> set (enumerate 0 (reached arr)) \<and>
              \<not> shortStream (latlngStream sd') \<and> ?Q sd'"
    then obtain sd' where m': "(i, sd') \<in> set (enumerate 0 (reached arr))" and q: "?Q sd'"
      by blast
    from m' mem have "sd' = sd" by (rule enumerate_functional)
    with q show "?Q sd" by simp
  next
    assume "?Q sd"
    with mem len show
      "\<exists>sd'. (i, sd') \<in> set (enumerate 0 (reached arr)) \<and>
         \<not> shortStream (latlngStream sd') \<and> ?Q sd'"
      by blast
  qed
  then show ?thesis
    unfolding id processStravaData_def grid_processFrom empty by (simp add: t)
qed

text \<open>
  C3. After \<open>processStravaData\<close> on a state without tracks and with an empty grid, whether
  it completes or throws, the internal identifier of a track is in the set stored at the
  key of the cell \<open>(gx, gy)\<close> exactly when one of the track's points \<open>(x, y)\<close> has
  \<open>floor (x / GRID_CELL_SIZE) = gx\<close> and \<open>floor (y / GRID_CELL_SIZE) = gy\<close>. Adding
  an identifier for a point of a cell a second time leaves the grid as it is.
\<close>

theorem grid_membership:
  assumes "allTracksData st = []" and "pointPresenceGrid st = Map.empty"
  shows "(\<forall>t \<in> set (allTracksData (resultState (processStravaData st arr))).
            internalId t
              \<in> set (gridCell (pointPresenceGrid (resultState (processStravaData st arr))) gx gy)
            \<longleftrightarrow> (\<exists>p \<in> set (translatedPoints t).
                   \<lfloor>px p / GRID_CELL_SIZE\<rfloor> = gx \<and> \<lfloor>py p / GRID_CELL_SIZE\<rfloor> = gy))
       \<and> (\<lfloor>px tp' / GRID_CELL_SIZE\<rfloor> = \<lfloor>px tp / GRID_CELL_SIZE\<rfloor> \<and>
          \<lfloor>py tp' / GRID_CELL_SIZE\<rfloor> = \<lfloor>py tp / GRID_CELL_SIZE\<rfloor> \<longrightarrow>
          gridAdd iid (gridAdd iid grid tp) tp' = gridAdd iid grid tp)"
  using assms by (simp add: own_cell_iff gridAdd_twice)

theorem grid_membership_witness:
  "allTracksData exampleState = [] \<and> pointPresenceGrid exampleState = Map.empty
   \<and> map internalId (allTracksData (resultState (processStravaData exampleState exampleStreams)))
       = [1]
   \<and> 1 \<in> set (gridCell
         (pointPresenceGrid (resultState (processStravaData exampleState exampleStreams))) 10 0)
   \<and> 1 \<notin> set (gridCell
         (pointPresenceGrid (resultState (processStravaData exampleState exampleStreams))) 5 0)
   \<and> gridAdd 1 (gridAdd 1 Map.empty \<lparr>px = 3, py = 4\<rparr>) \<lparr>px = 5, py = 6\<rparr>
       = gridAdd 1 Map.empty \<lparr>px = 3, py = 4\<rparr>"
proof -
  have e: "allTracksData exampleState = []" "pointPresenceGrid exampleState = Map.empty"
    by (simp_all add: exampleState_def)
  have t: "allTracksData (resultState (processStravaData exampleState exampleStreams))
      = [\<lparr>trackId = 7, internalId = 1, trackType = ''run'',
           translatedPoints = [\<lparr>px = 0, py = 0\<rparr>, \<lparr>px = 100, py = 0\<rparr>],
           segmentsWithOverlap = []\<rparr>]"
    by code_simp
  have g: "GRID_CELL_SIZE = 10"
    by (simp add: GRID_CELL_SIZE_def OVERLAP_PROXIMITY_ABSTRACT_def)
  note in10 = grid_membership [OF e, of exampleStreams 10 0
      "\<lparr>px = 5, py = 6\<rparr>" "\<lparr>px = 3, py = 4\<rparr>" 1 Map.empty]
  note in5 = grid_membership [OF e, of exampleStreams 5 0
      "\<lparr>px = 5, py = 6\<rparr>" "\<lparr>px = 3, py = 4\<rparr>" 1 Map.empty]
  have "1 \<in> set (gridCell
      (pointPresenceGrid (resultState (processStravaData exampleState exampleStreams))) 10 0)"
    using in10 by (simp add: t g)
  moreover
  have "1 \<notin> set (gridCell
      (pointPresenceGrid (resultState (processStravaData exampleState exampleStreams))) 5 0)"
    using in5 by (simp add: t g)
  moreover
  have "gridAdd 1 (gridAdd 1 Map.empty \<lparr>px = 3, py = 4\<rparr>) \<lparr>px = 5, py = 6\<rparr>
      = gridAdd 1 Map.empty \<lparr>px = 3, py = 4\<rparr>"
    using in10 by (simp add: g)
  ultimately show ?thesis
    using e by (simp add: t)
qed
section \<open>Overlap counts\<close>

lemma set_addAll: "set (addAll acc ids) = set acc \<union> set ids"
  unfolding addAll_def by (induction ids arbitrary: acc) auto

lemma set_vicinity: "set vicinity = {-1, 0, 1} \<times> {-1, 0, 1}"
  by (auto simp: vicinity_def)

lemma set_foldl_vicinity:
  "set (foldl (\<lambda>acc d. case grid (gridKey (gx + fst d) (gy + snd d)) of
                          Some ids \<Rightarrow> addAll acc ids
                        | None \<Rightarrow> acc) acc ds)
     = set acc \<union> (\<Union>d \<in> set ds. set (gridCell grid (gx + fst d) (gy + snd d)))"
  by (induction ds arbitrary: acc) (auto simp: set_addAll gridCell_def split: option.splits)

lemma getOverlapCountForPoint_pos:
  assumes j: "j \<in> set (gridCell grid cx cy)"
    and x: "\<bar>cx - \<lfloor>px m / GRID_CELL_SIZE\<rfloor>\<bar> \<le> 1"
    and y: "\<bar>cy - \<lfloor>py m / GRID_CELL_SIZE\<rfloor>\<bar> \<le> 1"
  shows "1 \<le> getOverlapCountForPoint grid m cur"
proof -
  let ?gx = "\<lfloor>px m / GRID_CELL_SIZE\<rfloor>" and ?gy = "\<lfloor>py m / GRID_CELL_SIZE\<rfloor>"
  let ?ids = "foldl (\<lambda>acc d. case grid (gridKey (?gx + fst d) (?gy + snd d)) of
                          Some ids \<Rightarrow> addAll acc ids
                        | None \<Rightarrow> acc) [] vicinity"
  have "cx - ?gx = -1 \<or> cx - ?gx = 0 \<or> cx - ?gx = 1"
    and "cy - ?gy = -1 \<or> cy - ?gy = 0 \<or> cy - ?gy = 1"
    using x y by linarith+
  then have d: "(cx - ?gx, cy - ?gy) \<in> set vicinity"
    unfolding set_vicinity mem_Times_iff fst_conv snd_conv by blast
  have jj: "j \<in> set (gridCell grid (?gx + fst (cx - ?gx, cy - ?gy)) (?gy + snd (cx - ?gx, cy - ?gy)))"
    using j by simp
  have "j \<in> (\<Union>d \<in> set vicinity. set (gridCell grid (?gx + fst d) (?gy + snd d)))"
    using d jj by (rule UN_I)
  then have "j \<in> set ?ids"
    by (simp only: set_foldl_vicinity Un_iff simp_thms)
  then have "?ids \<noteq> []" by auto
  then have "1 \<le> length ?ids" by (cases ?ids) simp_all
  then show ?thesis
    by (simp add: getOverlapCountForPoint_def Let_def)
qed

lemma floor_near:
  assumes "\<bar>a - m\<bar> \<le> GRID_CELL_SIZE"
  shows "\<bar>\<lfloor>a / GRID_CELL_SIZE\<rfloor> - \<lfloor>m / GRID_CELL_SIZE\<rfloor>\<bar> \<le> 1"
proof -
  have "\<bar>a / 10 - m / 10\<bar> \<le> 1"
    using assms by (simp add: GRID_CELL_SIZE_def OVERLAP_PROXIMITY_ABSTRACT_def)
  then have "\<bar>\<lfloor>a / 10\<rfloor> - \<lfloor>m / 10\<rfloor>\<bar> \<le> 1"
    by linarith
  then show ?thesis
    by (simp add: GRID_CELL_SIZE_def OVERLAP_PROXIMITY_ABSTRACT_def)
qed

lemma trackSegments_mem:
  "s \<in> set (trackSegments grid iid pts) \<Longrightarrow>
     p1 s \<in> set pts \<and> p2 s \<in> set pts \<and>
     overlapCount s = getOverlapCountForPoint grid
       \<lparr> px = (px (p1 s) + px (p2 s)) / 2, py = (py (p1 s) + py (p2 s)) / 2 \<rparr> iid"
  by (induction grid iid pts rule: trackSegments.induct) auto

lemma length_trackSegments: "length (trackSegments grid iid pts) = length pts - 1"
  by (induction grid iid pts rule: trackSegments.induct) auto

section \<open>The dataset after a load\<close>

lemma fitView_shape:
  "\<exists>v. fitView st minX maxX minY maxY = st\<lparr>viewState := v, initialViewState := v\<rparr>"
proof (cases "maxX - minX = 0 \<and> maxY - minY = 0")
  case True
  then have "fitView st minX maxX minY maxY =
      st\<lparr>viewState := (initialViewState st)\<lparr>panX := canvasWidth st / 2 - minX * scale (initialViewState st),
                                               panY := canvasHeight st / 2 - minY * scale (initialViewState st)\<rparr>,
         initialViewState := (initialViewState st)\<lparr>panX := canvasWidth st / 2 - minX * scale (initialViewState st),
                                               panY := canvasHeight st / 2 - minY * scale (initialViewState st)\<rparr>\<rparr>"
    unfolding fitView_def Let_def by simp
  then show ?thesis by blast
next
  case False
  then show ?thesis
    unfolding fitView_def Let_def by (simp only: if_False) (rule exI, rule refl)
qed

lemma fitView_frame:
  "allTracksData (fitView st minX maxX minY maxY) = allTracksData st"
  "pointPresenceGrid (fitView st minX maxX minY maxY) = pointPresenceGrid st"
  "activityMetadata (fitView st minX maxX minY maxY) = activityMetadata st"
  "activeActivityFilters (fitView st minX maxX minY maxY) = activeActivityFilters st"
  "webGLTrackBuffers (fitView st minX maxX minY maxY) = webGLTrackBuffers st"
  using fitView_shape [of st minX maxX minY maxY] by auto

lemma resetViewAndFitTracks_cases:
  "resetViewAndFitTracks st = st\<lparr>viewState := initialViewState st\<rparr>
   \<or> (\<exists>minX maxX minY maxY. resetViewAndFitTracks st = fitView st minX maxX minY maxY)"
  unfolding resetViewAndFitTracks_def Let_def
  by (cases "foldl extendMin None (map px (concat (map translatedPoints (allTracksData st))))";
      cases "foldl extendMax None (map px (concat (map translatedPoints (allTracksData st))))";
      cases "foldl extendMin None (map py (concat (map translatedPoints (allTracksData st))))";
      cases "foldl extendMax None (map py (concat (map translatedPoints (allTracksData st))))")
    auto

lemma resetViewAndFitTracks_frame:
  "allTracksData (resetViewAndFitTracks st) = allTracksData st"
  "pointPresenceGrid (resetViewAndFitTracks st) = pointPresenceGrid st"
  "activityMetadata (resetViewAndFitTracks st) = activityMetadata st"
  "activeActivityFilters (resetViewAndFitTracks st) = activeActivityFilters st"
  "webGLTrackBuffers (resetViewAndFitTracks st) = webGLTrackBuffers st"
  using resetViewAndFitTracks_cases [of st] by (auto simp: fitView_frame)

lemma prepareDataForWebGL_frame:
  "allTracksData (prepareDataForWebGL st) = allTracksData st"
  "pointPresenceGrid (prepareDataForWebGL st) = pointPresenceGrid st"
  "activityMetadata (prepareDataForWebGL st) = activityMetadata st"
  "activeActivityFilters (prepareDataForWebGL st) = activeActivityFilters st"
  by (simp_all add: prepareDataForWebGL_def)

lemma updateActivityToggles_frame:
  "allTracksData (updateActivityToggles st) = allTracksData st"
  "pointPresenceGrid (updateActivityToggles st) = pointPresenceGrid st"
  "activityMetadata (updateActivityToggles st) = activityMetadata st"
  by (simp_all add: updateActivityToggles_def)

lemma calculateAllSegmentOverlaps_frame:
  "pointPresenceGrid (calculateAllSegmentOverlaps st) = pointPresenceGrid st"
  "activityMetadata (calculateAllSegmentOverlaps st) = activityMetadata st"
  "activeActivityFilters (calculateAllSegmentOverlaps st) = activeActivityFilters st"
  by (simp_all add: calculateAllSegmentOverlaps_def)

lemma tracks_calculateAllSegmentOverlaps:
  "allTracksData (calculateAllSegmentOverlaps st) =
     map (\<lambda>track. track\<lparr> segmentsWithOverlap :=
             trackSegments (pointPresenceGrid st) (internalId track) (translatedPoints track) \<rparr>)
       (allTracksData st)"
  by (simp add: calculateAllSegmentOverlaps_def)

lemma clearDataset_fresh:
  "allTracksData (clearDataset st) = []" "pointPresenceGrid (clearDataset st) = Map.empty"
  by (simp_all add: clearDataset_def)

lemma processStravaData_nil: "processStravaData st [] = Completed st"
  by (simp add: processStravaData_def)

lemma resolvedStreams_nil: "resolvedStreams [] = []"
  by (simp add: resolvedStreams_def)

lemma resultState_cases:
  "r = Completed (resultState r) \<or> r = Threw (resultState r)"
  by (cases r) simp_all

lemma tracks_loadActivities:
  assumes "reglInitialized st"
  shows "allTracksData (loadActivities st (ActivitiesOk activities)) =
     (case processStravaData (clearDataset st) (resolvedStreams activities) of
        Completed st1 \<Rightarrow>
          map (\<lambda>track. track\<lparr> segmentsWithOverlap :=
                  trackSegments (pointPresenceGrid st1) (internalId track) (translatedPoints track) \<rparr>)
            (allTracksData st1)
      | Threw st1 \<Rightarrow> allTracksData st1)"
proof (cases "activities = []")
  case True
  then show ?thesis
    using assms
    by (simp add: loadActivities_def resolvedStreams_nil processStravaData_nil clearDataset_fresh)
next
  case False
  then show ?thesis
    using assms
    by (simp add: loadActivities_def Let_def resetViewAndFitTracks_frame prepareDataForWebGL_frame
        tracks_calculateAllSegmentOverlaps updateActivityToggles_frame split: ProcessResult.split)
qed

lemma tracks_no_segments:
  assumes "allTracksData st = []"
    and "t \<in> set (allTracksData (resultState (processStravaData st arr)))"
  shows "segmentsWithOverlap t = []"
  using assms
  by (auto simp: processStravaData_def tracks_processFrom streamTrack_def trackForOverlap_def)

lemma overlapCount_short:
  assumes fresh: "allTracksData st = []" "pointPresenceGrid st = Map.empty"
    and t: "t \<in> set (allTracksData (resultState (processStravaData st arr)))"
    and s: "s \<in> set (trackSegments (pointPresenceGrid (resultState (processStravaData st arr)))
                       (internalId t) (translatedPoints t))"
    and x: "\<bar>px (p1 s) - px (p2 s)\<bar> \<le> 2 * GRID_CELL_SIZE"
    and y: "\<bar>py (p1 s) - py (p2 s)\<bar> \<le> 2 * GRID_CELL_SIZE"
  shows "1 \<le> overlapCount s"
proof -
  let ?grid = "pointPresenceGrid (resultState (processStravaData st arr))"
  let ?m = "\<lparr> px = (px (p1 s) + px (p2 s)) / 2, py = (py (p1 s) + py (p2 s)) / 2 \<rparr>"
  from trackSegments_mem [OF s]
  have p: "p1 s \<in> set (translatedPoints t)"
    and c: "overlapCount s = getOverlapCountForPoint ?grid ?m (internalId t)"
    by simp_all
  have own: "internalId t \<in> set (gridCell ?grid \<lfloor>px (p1 s) / GRID_CELL_SIZE\<rfloor>
                                      \<lfloor>py (p1 s) / GRID_CELL_SIZE\<rfloor>)"
    using own_cell_iff [OF fresh t] p by blast
  have "\<bar>px (p1 s) - px ?m\<bar> \<le> GRID_CELL_SIZE" "\<bar>py (p1 s) - py ?m\<bar> \<le> GRID_CELL_SIZE"
    using x y by (simp_all add: field_simps abs_le_iff)
  then have "\<bar>\<lfloor>px (p1 s) / GRID_CELL_SIZE\<rfloor> - \<lfloor>px ?m / GRID_CELL_SIZE\<rfloor>\<bar> \<le> 1"
    and "\<bar>\<lfloor>py (p1 s) / GRID_CELL_SIZE\<rfloor> - \<lfloor>py ?m / GRID_CELL_SIZE\<rfloor>\<bar> \<le> 1"
    by (simp_all only: floor_near)
  with own have "1 \<le> getOverlapCountForPoint ?grid ?m (internalId t)"
    by (rule getOverlapCountForPoint_pos)
  with c show ?thesis by simp
qed

lemma loaded_example:
  "allTracksData (loadActivities exampleState (ActivitiesOk exampleBatch)) =
     [\<lparr> trackId = 7, internalId = 1, trackType = ''run'',
        translatedPoints = [\<lparr>px = 0, py = 0\<rparr>, \<lparr>px = 100, py = 0\<rparr>, \<lparr>px = 110, py = 0\<rparr>],
        segmentsWithOverlap =
          [\<lparr>p1 = \<lparr>px = 0, py = 0\<rparr>, p2 = \<lparr>px = 100, py = 0\<rparr>, overlapCount = 0\<rparr>,
           \<lparr>p1 = \<lparr>px = 100, py = 0\<rparr>, p2 = \<lparr>px = 110, py = 0\<rparr>, overlapCount = 1\<rparr>] \<rparr>]"
  by code_simp

text \<open>
  C2 (as amended). After a load, every segment of every track whose endpoints differ by at
  most twice the cell size in each coordinate has an overlap count of at least 1: the
  block of cells around its midpoint contains the cell of its first endpoint, where the
  track itself is registered. (A longer segment can have the count 0, as the example
  after the theorem shows.)
\<close>

theorem overlapCount_short_segments:
  assumes "reglInitialized st"
  shows "\<forall>t \<in> set (allTracksData (loadActivities st (ActivitiesOk activities))).
           \<forall>s \<in> set (segmentsWithOverlap t).
             \<bar>px (p1 s) - px (p2 s)\<bar> \<le> 2 * GRID_CELL_SIZE \<and>
             \<bar>py (p1 s) - py (p2 s)\<bar> \<le> 2 * GRID_CELL_SIZE
             \<longrightarrow> 1 \<le> overlapCount s"
proof (intro ballI impI)
  fix t s
  let ?R = "processStravaData (clearDataset st) (resolvedStreams activities)"
  let ?P = "resultState ?R"
  assume tin: "t \<in> set (allTracksData (loadActivities st (ActivitiesOk activities)))"
    and s: "s \<in> set (segmentsWithOverlap t)"
    and short: "\<bar>px (p1 s) - px (p2 s)\<bar> \<le> 2 * GRID_CELL_SIZE \<and>
                \<bar>py (p1 s) - py (p2 s)\<bar> \<le> 2 * GRID_CELL_SIZE"
  from resultState_cases [of ?R] show "1 \<le> overlapCount s"
  proof
    assume r: "?R = Threw ?P"
    have "t \<in> set (allTracksData ?P)"
      using tin unfolding tracks_loadActivities [OF assms] by (subst (asm) r) simp
    then have "segmentsWithOverlap t = []"
      by (intro tracks_no_segments [of "clearDataset st" t "resolvedStreams activities"])
        (simp_all add: clearDataset_fresh)
    with s show ?thesis by simp
  next
    assume r: "?R = Completed ?P"
    have "t \<in> set (map (\<lambda>track. track\<lparr> segmentsWithOverlap :=
                  trackSegments (pointPresenceGrid ?P) (internalId track) (translatedPoints track) \<rparr>)
            (allTracksData ?P))"
      using tin unfolding tracks_loadActivities [OF assms] by (subst (asm) r) simp
    then obtain t0 where t0: "t0 \<in> set (allTracksData ?P)"
      and t: "t = t0\<lparr> segmentsWithOverlap :=
                 trackSegments (pointPresenceGrid ?P) (internalId t0) (translatedPoints t0) \<rparr>"
      by auto
    from s t have "s \<in> set (trackSegments (pointPresenceGrid ?P) (internalId t0) (translatedPoints t0))"
      by simp
    with clearDataset_fresh t0 show ?thesis
      using short
      by (intro overlapCount_short [of "clearDataset st" t0 "resolvedStreams activities" s]) simp_all
  qed
qed

theorem overlapCount_short_segments_witness:
  "reglInitialized exampleState
   \<and> segmentsWithOverlap (hd (allTracksData (loadActivities exampleState (ActivitiesOk exampleBatch)))) ! 1
       = \<lparr>p1 = \<lparr>px = 100, py = 0\<rparr>, p2 = \<lparr>px = 110, py = 0\<rparr>, overlapCount = 1\<rparr>
   \<and> 1 \<le> overlapCount (segmentsWithOverlap
         (hd (allTracksData (loadActivities exampleState (ActivitiesOk exampleBatch)))) ! 1)"
proof -
  have r: "reglInitialized exampleState"
    by (simp add: exampleState_def)
  have g: "GRID_CELL_SIZE = 10"
    by (simp add: GRID_CELL_SIZE_def OVERLAP_PROXIMITY_ABSTRACT_def)
  from overlapCount_short_segments [OF r, of exampleBatch]
  have "1 \<le> overlapCount (segmentsWithOverlap
         (hd (allTracksData (loadActivities exampleState (ActivitiesOk exampleBatch)))) ! 1)"
    by (simp add: loaded_example g)
  then show ?thesis
    using r by (simp add: loaded_example)
qed

text \<open>
  The claim C2 as it is stated fails: a track whose first two points are 100 units apart
  has a first segment with the overlap count 0, since neither endpoint is in the block of
  cells around the midpoint \<open>(50, 0)\<close>.
\<close>

theorem overlapCount_zero_counterexample:
  "segmentsWithOverlap (hd (allTracksData (loadActivities exampleState (ActivitiesOk exampleBatch)))) ! 0
     = \<lparr>p1 = \<lparr>px = 0, py = 0\<rparr>, p2 = \<lparr>px = 100, py = 0\<rparr>, overlapCount = 0\<rparr>
   \<and> \<not> 1 \<le> overlapCount (segmentsWithOverlap
         (hd (allTracksData (loadActivities exampleState (ActivitiesOk exampleBatch)))) ! 0)"
  by (simp add: loaded_example)

section \<open>Failures of single activities\<close>

lemma trackIds_enumerate:
  "map trackId
     (map (\<lambda>(i, sd). streamTrack sd i)
        (filter (\<lambda>(i, sd). \<not> shortStream (latlngStream sd)) (enumerate k arr)))
   = map (\<lambda>sd. a_id (activityInfo sd)) (filter (\<lambda>sd. \<not> shortStream (latlngStream sd)) arr)"
  by (induction arr arbitrary: k) (simp_all add: streamTrack_def trackForOverlap_def)

lemma resolvedStreams_Cons:
  "resolvedStreams ((a, r) # rest) =
     (case streamPromise a r of Some sd \<Rightarrow> [sd] | None \<Rightarrow> []) @ resolvedStreams rest"
  by (simp add: resolvedStreams_def split: option.splits)

lemma usable_resolved:
  "map (\<lambda>sd. a_id (activityInfo sd))
     (filter (\<lambda>sd. \<not> shortStream (latlngStream sd)) (resolvedStreams activities))
   = map (\<lambda>e. a_id (fst e)) (filter usableStream activities)"
proof (induction activities)
  case Nil
  then show ?case by (simp add: resolvedStreams_def)
next
  case (Cons e activities)
  obtain a r where e: "e = (a, r)" by (cases e)
  show ?case
    unfolding e resolvedStreams_Cons
    using Cons.IH
    by (cases r) (auto simp: streamPromise_def usableStream_def split: option.splits)
qed

lemma resolved_no_throw:
  "\<forall>e \<in> set activities. \<not> entryThrows e \<Longrightarrow>
     \<forall>sd \<in> set (resolvedStreams activities). \<not> streamThrows sd"
proof (induction activities)
  case Nil
  then show ?case by (simp add: resolvedStreams_def)
next
  case (Cons e activities)
  obtain a r where e: "e = (a, r)" by (cases e)
  from Cons.prems have "\<not> entryThrows (a, r)" by (simp add: e)
  then have "\<forall>sd. streamPromise a r = Some sd \<longrightarrow> \<not> streamThrows sd"
    by (auto simp: entryThrows_def)
  with Cons show ?case
    unfolding e resolvedStreams_Cons by (auto split: option.splits)
qed

lemma loadActivities_completed:
  assumes "reglInitialized st" and "\<forall>e \<in> set activities. \<not> entryThrows e"
  shows "allTracksData (loadActivities st (ActivitiesOk activities)) =
     map (\<lambda>track. track\<lparr> segmentsWithOverlap :=
             trackSegments
               (pointPresenceGrid
                  (resultState (processStravaData (clearDataset st) (resolvedStreams activities))))
               (internalId track) (translatedPoints track) \<rparr>)
       (map (\<lambda>(i, sd). streamTrack sd i)
          (filter (\<lambda>(i, sd). \<not> shortStream (latlngStream sd))
             (enumerate 0 (resolvedStreams activities))))"
proof -
  let ?R = "processStravaData (clearDataset st) (resolvedStreams activities)"
  have no: "\<forall>sd \<in> set (resolvedStreams activities). \<not> streamThrows sd"
    using assms(2) by (rule resolved_no_throw)
  then obtain st1 where r: "?R = Completed st1"
    unfolding processStravaData_def using processFrom_Completed by blast
  have "allTracksData (resultState ?R) =
      map (\<lambda>(i, sd). streamTrack sd i)
        (filter (\<lambda>(i, sd). \<not> shortStream (latlngStream sd))
           (enumerate 0 (resolvedStreams activities)))"
    unfolding processStravaData_def tracks_processFrom reached_all [OF no]
    by (simp add: clearDataset_fresh)
  then show ?thesis
    unfolding tracks_loadActivities [OF assms(1)] by (simp add: r)
qed

text \<open>
  C9 (as amended). When no stream of the batch makes \<^verbatim>\<open>processStravaData\<close> throw, a load
  produces tracks for exactly the activities of the batch that have a summary polyline and
  whose stream request gave latlng data of two points or more, in the order of the batch;
  each of these tracks is normalized and classified (it has one segment per consecutive
  pair of points), whatever the other requests came to. A request that throws, a response
  that is not ok and a body without latlng data give a \<^verbatim>\<open>null\<close> entry.
\<close>

theorem load_isolates_failures:
  assumes "reglInitialized st" and "\<forall>e \<in> set activities. \<not> entryThrows e"
  shows "map trackId (allTracksData (loadActivities st (ActivitiesOk activities)))
           = map (\<lambda>e. a_id (fst e)) (filter usableStream activities)
       \<and> (\<forall>t \<in> set (allTracksData (loadActivities st (ActivitiesOk activities))).
            2 \<le> length (translatedPoints t) \<and>
            length (segmentsWithOverlap t) = length (translatedPoints t) - 1)
       \<and> streamPromise activity FetchThrows = None
       \<and> streamPromise activity ResponseNotOk = None
       \<and> (latlng_data streams = None \<longrightarrow> streamPromise activity (ResponseJson streams) = None)"
proof (intro conjI)
  note tracks = loadActivities_completed [OF assms]
  have no: "\<forall>sd \<in> set (resolvedStreams activities). \<not> streamThrows sd"
    using assms(2) by (rule resolved_no_throw)
  show "streamPromise activity FetchThrows = None"
    and "streamPromise activity ResponseNotOk = None"
    and "latlng_data streams = None \<longrightarrow> streamPromise activity (ResponseJson streams) = None"
    by (simp_all add: streamPromise_def)
  show "map trackId (allTracksData (loadActivities st (ActivitiesOk activities)))
      = map (\<lambda>e. a_id (fst e)) (filter usableStream activities)"
    unfolding tracks
    by (simp add: o_def trackIds_enumerate [unfolded map_map o_def] usable_resolved)
  show "\<forall>t \<in> set (allTracksData (loadActivities st (ActivitiesOk activities))).
      2 \<le> length (translatedPoints t) \<and>
      length (segmentsWithOverlap t) = length (translatedPoints t) - 1"
  proof
    fix t
    assume "t \<in> set (allTracksData (loadActivities st (ActivitiesOk activities)))"
    then obtain i sd where mem: "(i, sd) \<in> set (enumerate 0 (resolvedStreams activities))"
      and len: "\<not> shortStream (latlngStream sd)"
      and pts: "translatedPoints t = translatedPoints (streamTrack sd i)"
      and segs: "length (segmentsWithOverlap t) = length (translatedPoints (streamTrack sd i)) - 1"
      unfolding tracks by (auto simp: length_trackSegments)
    from mem have "sd \<in> set (resolvedStreams activities)"
      by (auto simp: in_set_enumerate_eq)
    with no have "\<not> streamThrows sd" by blast
    from streamTrack_raw [OF this len, of i]
    have "2 \<le> length (translatedPoints (streamTrack sd i))"
      by (auto simp: translatedScaledPoints_def)
    with pts segs
    show "2 \<le> length (translatedPoints t) \<and>
      length (segmentsWithOverlap t) = length (translatedPoints t) - 1"
      by simp
  qed
qed

theorem load_isolates_failures_witness:
  "reglInitialized exampleState
   \<and> filter entryThrows exampleBatch = []
   \<and> map (\<lambda>e. a_id (fst e)) exampleBatch = [5, 7, 9]
   \<and> map (\<lambda>e. a_id (fst e)) (filter usableStream exampleBatch) = [7]
   \<and> map trackId (allTracksData (loadActivities exampleState (ActivitiesOk exampleBatch))) = [7]
   \<and> length (segmentsWithOverlap
         (hd (allTracksData (loadActivities exampleState (ActivitiesOk exampleBatch))))) = 2"
proof -
  have r: "reglInitialized exampleState"
    by (simp add: exampleState_def)
  have n: "\<forall>e \<in> set exampleBatch. \<not> entryThrows e"
    by (simp add: exampleBatch_def entryThrows_def streamPromise_def streamThrows_def
        shortStream_def dataLength_def originalPoints_def exampleJson_def exampleActivity_def)
  have u: "map (\<lambda>e. a_id (fst e)) (filter usableStream exampleBatch) = [7]"
    by (simp add: exampleBatch_def usableStream_def exampleJson_def exampleActivity_def
        shortStream_def dataLength_def)
  have b: "map (\<lambda>e. a_id (fst e)) exampleBatch = [5, 7, 9]"
    by (simp add: exampleBatch_def exampleActivity_def)
  from load_isolates_failures [OF r n]
  have "map trackId (allTracksData (loadActivities exampleState (ActivitiesOk exampleBatch))) = [7]"
    by (simp add: u)
  moreover have "filter entryThrows exampleBatch = []"
    using n by (simp add: filter_empty_conv)
  ultimately show ?thesis
    using r u b by (simp add: loaded_example)
qed

text \<open>
  The claim C9 as it is stated fails: the stream request of activity 5 of the example
  succeeds with latlng data, of one point, and the load has no track for it.
\<close>

theorem load_short_stream_counterexample:
  "a_id (fst (exampleBatch ! 0)) = 5
   \<and> a_has_polyline (fst (exampleBatch ! 0))
   \<and> fetchSucceededWithLatlng (snd (exampleBatch ! 0))
   \<and> 5 \<notin> set (map trackId (allTracksData (loadActivities exampleState (ActivitiesOk exampleBatch))))"
proof -
  have "exampleBatch ! 0 = (exampleActivity 5 ''Ride'', exampleJson [LatLng 1 1])"
    by (simp add: exampleBatch_def)
  then have "a_id (fst (exampleBatch ! 0)) = 5 \<and> a_has_polyline (fst (exampleBatch ! 0))
      \<and> fetchSucceededWithLatlng (snd (exampleBatch ! 0))"
    by (simp add: exampleActivity_def exampleJson_def fetchSucceededWithLatlng_def)
  then show ?thesis
    by (simp add: loaded_example)
qed

text \<open>
  A stream on which the body throws ends \<^verbatim>\<open>processStravaData\<close>, and the load with it. The
  second stream of the example has a \<^verbatim>\<open>null\<close> entry: the load leaves the track of the first
  activity without segments, has no track for the third, and builds no buffers.
\<close>

lemma load_aborts_on_malformed_stream:
  "entryThrows (exampleBroken ! 1)
   \<and> map (\<lambda>e. a_id (fst e)) (filter usableStream exampleBroken) = [1, 2, 3]
   \<and> allTracksData (loadActivities exampleState (ActivitiesOk exampleBroken)) =
       [\<lparr> trackId = 1, internalId = 0, trackType = ''run'',
          translatedPoints = [\<lparr>px = 0, py = 0\<rparr>, \<lparr>px = 10, py = 0\<rparr>],
          segmentsWithOverlap = [] \<rparr>]
   \<and> webGLTrackBuffers (loadActivities exampleState (ActivitiesOk exampleBroken)) = emptyBuffers"
  by code_simp

lemma missing_type_throws:
  "streamThrows \<lparr> activityInfo = (exampleActivity 4 ''Run'')\<lparr> a_type := None \<rparr>,
                  latlngStream = ArrayData [LatLng 0 0, LatLng 0 1], timeStream = None,
                  distStream = None \<rparr>
   \<and> streamThrows \<lparr> activityInfo = exampleActivity 4 ''Run'', latlngStream = OtherData None,
                    timeStream = None, distStream = None \<rparr>
   \<and> \<not> streamThrows \<lparr> activityInfo = exampleActivity 4 ''Run'', latlngStream = ArrayData [NullEntry],
                      timeStream = None, distStream = None \<rparr>"
  by code_simp
section \<open>The render buffers\<close>

lemma buffersOf_Nil: "buffersOf [] = emptyBuffers"
  by (simp add: buffersOf_def emptyBuffers_def)

lemma upt_two_more: "[0..<2 * n] @ [2 * n, 2 * n + 1] = [0..<2 * Suc n]"
  by simp

lemma pushSegment_buffersOf:
  "pushSegment (trackId t) (buffersOf pre, 2 * length pre) s
     = (buffersOf (pre @ [(t, s)]), 2 * length (pre @ [(t, s)]))"
  by (simp add: pushSegment_def buffersOf_def Let_def)

lemma foldl_pushSegment_buffersOf:
  "foldl (pushSegment (trackId t)) (buffersOf pre, 2 * length pre) segs
     = (buffersOf (pre @ map (\<lambda>s. (t, s)) segs), 2 * length (pre @ map (\<lambda>s. (t, s)) segs))"
proof (induction segs arbitrary: pre)
  case Nil
  then show ?case by simp
next
  case (Cons s segs)
  show ?case
    unfolding foldl_Cons pushSegment_buffersOf Cons.IH by simp
qed

lemma visibleSegments_Cons:
  "visibleSegments filters (t # tracks) =
     (if filterActive filters (trackType t) then map (\<lambda>s. (t, s)) (segmentsWithOverlap t) else [])
     @ visibleSegments filters tracks"
  by (simp add: visibleSegments_def)

lemma foldl_pushTrack_buffersOf:
  "foldl (pushTrack filters) (buffersOf pre, 2 * length pre) tracks
     = (buffersOf (pre @ visibleSegments filters tracks),
        2 * length (pre @ visibleSegments filters tracks))"
proof (induction tracks arbitrary: pre)
  case Nil
  then show ?case by (simp add: visibleSegments_def)
next
  case (Cons t tracks)
  show ?case
  proof (cases "filterActive filters (trackType t)")
    case True
    then show ?thesis
      unfolding foldl_Cons visibleSegments_Cons
      by (simp only: pushTrack_def foldl_pushSegment_buffersOf Cons.IH if_True if_False
          not_True_eq_False append_assoc)
  next
    case False
    then show ?thesis
      unfolding foldl_Cons visibleSegments_Cons
      by (simp add: pushTrack_def Cons.IH)
  qed
qed

lemma buffers_prepareDataForWebGL:
  "webGLTrackBuffers (prepareDataForWebGL st)
     = buffersOf (visibleSegments (activeActivityFilters st) (allTracksData st))"
  using foldl_pushTrack_buffersOf [of "activeActivityFilters st" "[]" "allTracksData st"]
  by (simp add: prepareDataForWebGL_def buffersOf_Nil)

lemma filterActive_disable:
  "filterActive (filters(ty \<mapsto> False)) x \<longleftrightarrow> x \<noteq> ty \<and> filterActive filters x"
  by (simp add: filterActive_def)

lemma filter_own_segments:
  "filter (\<lambda>e. trackType (fst e) \<noteq> ty) (map (\<lambda>s. (t, s)) segs)
     = (if trackType t \<noteq> ty then map (\<lambda>s. (t, s)) segs else [])"
  by (induction segs) simp_all

lemma visibleSegments_disable:
  "visibleSegments (filters(ty \<mapsto> False)) tracks
     = filter (\<lambda>e. trackType (fst e) \<noteq> ty) (visibleSegments filters tracks)"
proof (induction tracks)
  case Nil
  then show ?case by (simp add: visibleSegments_def)
next
  case (Cons t tracks)
  show ?case
    unfolding visibleSegments_Cons Cons.IH filter_append filter_own_segments filterActive_disable
    by simp
qed

lemma twins_loaded:
  "allTracksData (loadActivities exampleState (ActivitiesOk exampleTwins)) =
     [\<lparr> trackId = 1, internalId = 0, trackType = ''run'',
        translatedPoints = [\<lparr>px = 0, py = 0\<rparr>, \<lparr>px = 10, py = 0\<rparr>],
        segmentsWithOverlap =
          [\<lparr>p1 = \<lparr>px = 0, py = 0\<rparr>, p2 = \<lparr>px = 10, py = 0\<rparr>, overlapCount = 2\<rparr>] \<rparr>,
      \<lparr> trackId = 2, internalId = 1, trackType = ''ride'',
        translatedPoints = [\<lparr>px = 0, py = 0\<rparr>, \<lparr>px = 10, py = 0\<rparr>],
        segmentsWithOverlap =
          [\<lparr>p1 = \<lparr>px = 0, py = 0\<rparr>, p2 = \<lparr>px = 10, py = 0\<rparr>, overlapCount = 2\<rparr>] \<rparr>]"
  by code_simp

lemma twins_buffers:
  "webGLTrackBuffers (loadActivities exampleState (ActivitiesOk exampleTwins)) =
     \<lparr> positions = [0, 0, 10, 0, 0, 0, 10, 0],
       colors = [1 / 4, 0, 0, 1 / 4, 0, 0, 1 / 4, 0, 0, 1 / 4, 0, 0],
       thicknesses = [4, 4, 4, 4], indices = [0, 1, 2, 3], segmentTrackIds = [1, 1, 2, 2] \<rparr>"
  by code_simp

lemma twins_buffers_disabled:
  "webGLTrackBuffers (checkboxChange (loadActivities exampleState (ActivitiesOk exampleTwins)) ''ride'' False) =
     \<lparr> positions = [0, 0, 10, 0],
       colors = [1 / 4, 0, 0, 1 / 4, 0, 0],
       thicknesses = [4, 4], indices = [0, 1], segmentTrackIds = [1, 1] \<rparr>"
  by code_simp

text \<open>
  C8. A change of a checkbox leaves the tracks, with the overlap counts of their segments,
  and the grid as they are. The buffers that \<open>prepareDataForWebGL\<close> builds hold the
  segments of the tracks of the active types; after a type is disabled they hold exactly
  those of these segments whose track is not of that type.
\<close>

theorem filter_change_visibility_only:
  "allTracksData (checkboxChange st ty checked) = allTracksData st
   \<and> pointPresenceGrid (checkboxChange st ty checked) = pointPresenceGrid st
   \<and> webGLTrackBuffers (prepareDataForWebGL st)
       = buffersOf (visibleSegments (activeActivityFilters st) (allTracksData st))
   \<and> webGLTrackBuffers (checkboxChange st ty False)
       = buffersOf (filter (\<lambda>e. trackType (fst e) \<noteq> ty)
           (visibleSegments (activeActivityFilters st) (allTracksData st)))"
  by (simp add: checkboxChange_def prepareDataForWebGL_frame buffers_prepareDataForWebGL
      visibleSegments_disable)

theorem filter_change_visibility_only_witness:
  "map (\<lambda>t. map overlapCount (segmentsWithOverlap t))
     (allTracksData (checkboxChange (loadActivities exampleState (ActivitiesOk exampleTwins))
        ''ride'' False)) = [[2], [2]]
   \<and> segmentTrackIds (webGLTrackBuffers (loadActivities exampleState (ActivitiesOk exampleTwins)))
       = [1, 1, 2, 2]
   \<and> webGLTrackBuffers (checkboxChange (loadActivities exampleState (ActivitiesOk exampleTwins))
        ''ride'' False)
       = \<lparr> positions = [0, 0, 10, 0], colors = [1 / 4, 0, 0, 1 / 4, 0, 0],
           thicknesses = [4, 4], indices = [0, 1], segmentTrackIds = [1, 1] \<rparr>"
proof -
  from filter_change_visibility_only
    [of "loadActivities exampleState (ActivitiesOk exampleTwins)" "''ride''" False]
  have "allTracksData (checkboxChange (loadActivities exampleState (ActivitiesOk exampleTwins))
      ''ride'' False) = allTracksData (loadActivities exampleState (ActivitiesOk exampleTwins))"
    by blast
  then show ?thesis
    by (simp add: twins_loaded twins_buffers twins_buffers_disabled)
qed

section \<open>The search of the click listener\<close>

lemma concat_blocks:
  assumes "\<forall>x \<in> set xs. length (f x) = m"
  shows "length (concat (map f xs)) = length xs * m"
    and "k < length xs \<Longrightarrow> j < m \<Longrightarrow> concat (map f xs) ! (k * m + j) = f (xs ! k) ! j"
  using assms
proof (induction xs arbitrary: k)
  case Nil
  {
    case 1
    then show ?case by simp
  next
    case 2
    then show ?case by simp
  }
next
  case (Cons x xs)
  {
    case 1
    then show ?case using Cons.IH(1) by simp
  next
    case 2
    show ?case
    proof (cases k)
      case 0
      with 2 show ?thesis by (simp add: nth_append)
    next
      case (Suc k')
      with 2 have "concat (map f xs) ! (k' * m + j) = f (xs ! k') ! j"
        by (intro Cons.IH(2)) simp_all
      with 2 Suc show ?thesis
        by (simp add: nth_append)
    qed
  }
qed

lemma vertexAt_buffersOf:
  assumes "k < length segs"
  shows "vertexAt (buffersOf segs) (2 * k) = Some (p1 (snd (segs ! k)))"
    and "vertexAt (buffersOf segs) (2 * k + 1) = Some (p2 (snd (segs ! k)))"
proof -
  let ?f = "\<lambda>e. [px (p1 (snd e)), py (p1 (snd e)), px (p2 (snd e)), py (p2 (snd e))]"
  have four: "\<forall>x \<in> set segs. length (?f x) = 4" by simp
  have len: "length (positions (buffersOf segs)) = length segs * 4"
    using concat_blocks(1) [OF four] by (simp add: buffersOf_def)
  have nth: "\<And>j. j < 4 \<Longrightarrow> positions (buffersOf segs) ! (k * 4 + j) = ?f (segs ! k) ! j"
    using concat_blocks(2) [OF four assms] by (simp add: buffersOf_def)
  have e3: "k * 4 + 3 = k * 4 + 2 + 1" by simp
  have n: "positions (buffersOf segs) ! (k * 4 + 0) = px (p1 (snd (segs ! k)))"
    "positions (buffersOf segs) ! (k * 4 + 0 + 1) = py (p1 (snd (segs ! k)))"
    "positions (buffersOf segs) ! (k * 4 + 2) = px (p2 (snd (segs ! k)))"
    "positions (buffersOf segs) ! (k * 4 + 2 + 1) = py (p2 (snd (segs ! k)))"
    using nth [of 0] nth [of 1] nth [of 2] nth [of 3, unfolded e3] by simp_all
  have i: "2 * k * 2 = k * 4 + 0" "(2 * k + 1) * 2 = k * 4 + 2"
    by simp_all
  have r: "(k * 4 + 0 < length segs * 4) = True" "(k * 4 + 0 + 1 < length segs * 4) = True"
    "(k * 4 + 2 < length segs * 4) = True" "(k * 4 + 2 + 1 < length segs * 4) = True"
    using assms by simp_all
  show "vertexAt (buffersOf segs) (2 * k) = Some (p1 (snd (segs ! k)))"
    unfolding vertexAt_def arrayGet_def i len n r by simp
  show "vertexAt (buffersOf segs) (2 * k + 1) = Some (p2 (snd (segs ! k)))"
    unfolding vertexAt_def arrayGet_def i len n r by simp
qed

lemma trackId_buffersOf:
  assumes "k < length segs"
  shows "arrayGet (segmentTrackIds (buffersOf segs)) (2 * k) = Some (trackId (fst (segs ! k)))"
proof -
  let ?f = "\<lambda>e. [trackId (fst e), trackId (fst e)]"
  have two: "\<forall>x \<in> set segs. length (?f x) = 2" by simp
  have len: "length (segmentTrackIds (buffersOf segs)) = length segs * 2"
    using concat_blocks(1) [OF two] by (simp add: buffersOf_def)
  have "segmentTrackIds (buffersOf segs) ! (k * 2 + 0) = ?f (segs ! k) ! 0"
    using concat_blocks(2) [OF two assms, of 0] by (simp add: buffersOf_def)
  then show ?thesis
    using assms by (simp add: arrayGet_def len mult.commute)
qed

lemma pickStep_buffersOf:
  assumes "webGLTrackBuffers st = buffersOf segs" and "k < length segs"
  shows "pickStep st click tol best (2 * k) (Some (2 * k + 1)) =
     (if hiddenByFilter st (trackId (fst (segs ! k))) then best
      else case distancePointToSegment click (p1 (snd (segs ! k))) (p2 (snd (segs ! k))) of
             Some d \<Rightarrow> updateBest tol best (Some (trackId (fst (segs ! k)))) d
           | None \<Rightarrow> best)"
  unfolding pickStep_def Let_def assms(1) option.case
    vertexAt_buffersOf [OF assms(2)] trackId_buffersOf [OF assms(2)]
  by (simp add: hiddenByFilter_def)

lemma pickCandidates_Cons:
  "pickCandidates st click (e # segs) =
     (if hiddenByFilter st (trackId (fst e)) then []
      else case distancePointToSegment click (p1 (snd e)) (p2 (snd e)) of
             Some d \<Rightarrow> [(trackId (fst e), d)]
           | None \<Rightarrow> [])
     @ pickCandidates st click segs"
  by (simp add: pickCandidates_def)

lemma pickLoop_buffersOf:
  assumes buf: "webGLTrackBuffers st = buffersOf segs"
  shows "k \<le> length segs \<Longrightarrow>
     pickLoop st click tol [2 * k..<2 * length segs] best =
       foldl (\<lambda>b c. updateBest tol b (Some (fst c)) (snd c)) best
         (pickCandidates st click (drop k segs))"
proof (induction "length segs - k" arbitrary: k best)
  case 0
  then show ?case by (simp add: pickCandidates_def)
next
  case (Suc m)
  then have k: "k < length segs" and m: "m = length segs - Suc k" by simp_all
  have upt: "[2 * k..<2 * length segs] = 2 * k # (2 * k + 1) # [2 * Suc k..<2 * length segs]"
    using k by (simp add: upt_conv_Cons)
  have drop: "drop k segs = segs ! k # drop (Suc k) segs"
    using k by (simp add: Cons_nth_drop_Suc)
  have step: "pickLoop st click tol [2 * k..<2 * length segs] best =
      pickLoop st click tol [2 * Suc k..<2 * length segs]
        (pickStep st click tol best (2 * k) (Some (2 * k + 1)))"
    unfolding upt by simp
  show ?case
    unfolding step drop pickCandidates_Cons pickStep_buffersOf [OF buf k]
    using Suc.hyps(1) [OF m] k
    by (simp split: option.splits)
qed

lemma findBestMatch_buffersOf:
  assumes buf: "webGLTrackBuffers st = buffersOf segs"
  shows "findBestMatch st sx sy =
     foldl (\<lambda>b c. updateBest (CLICK_SENSITIVITY_PIXELS / scale (viewState st)) b (Some (fst c)) (snd c))
       \<lparr> bm_trackId = None, bm_distance = None \<rparr>
       (pickCandidates st (screenToWorld (viewState st) (sx, sy)) segs)"
proof -
  have i: "indices (buffersOf segs) = [2 * 0..<2 * length segs]"
    by (simp add: buffersOf_def)
  show ?thesis
    unfolding findBestMatch_def Let_def buf i
    using pickLoop_buffersOf [OF buf, of 0]
    by (simp add: screenToWorld_def)
qed

text \<open>
  The buffers are those of a list of segments in every state that the listeners reach
  from such a state: a load rebuilds them or leaves them as they are, and a change of a
  checkbox rebuilds them.
\<close>

lemma buffers_processFrom:
  "webGLTrackBuffers (resultState (processFrom k st arr)) = webGLTrackBuffers st"
proof (induction arr arbitrary: k st)
  case Nil
  then show ?case by simp
next
  case (Cons sd arr)
  show ?case
  proof (cases "processStream st sd k")
    case None
    then show ?thesis by simp
  next
    case (Some st')
    then have "webGLTrackBuffers st' = webGLTrackBuffers st"
      by (auto simp: processStream_def Let_def split: if_splits option.splits)
    with Some Cons.IH [of "Suc k" st'] show ?thesis by simp
  qed
qed

lemma buffers_clearDataset: "webGLTrackBuffers (clearDataset st) = webGLTrackBuffers st"
  by (simp add: clearDataset_def)

lemma buffers_loadActivities:
  "webGLTrackBuffers (loadActivities st response) = webGLTrackBuffers st
   \<or> (\<exists>segs. webGLTrackBuffers (loadActivities st response) = buffersOf segs)"
proof (cases response)
  case ActivitiesFailed
  then show ?thesis
    by (simp add: loadActivities_def buffers_clearDataset)
next
  case (ActivitiesOk activities)
  let ?R = "processStravaData (clearDataset st) (resolvedStreams activities)"
  show ?thesis
  proof (cases ?R)
    case (Threw st1)
    have "webGLTrackBuffers (resultState ?R) = webGLTrackBuffers st"
      unfolding processStravaData_def buffers_processFrom by (simp add: buffers_clearDataset)
    then have "webGLTrackBuffers st1 = webGLTrackBuffers st"
      by (simp add: Threw)
    then have "webGLTrackBuffers (loadActivities st response) = webGLTrackBuffers st"
      unfolding ActivitiesOk by (simp add: loadActivities_def Let_def Threw buffers_clearDataset)
    then show ?thesis ..
  next
    case (Completed st1)
    show ?thesis
    proof (cases "\<not> reglInitialized st \<or> activities = []")
      case True
      then show ?thesis
        unfolding ActivitiesOk by (auto simp: loadActivities_def buffers_clearDataset)
    next
      case False
      then have "webGLTrackBuffers (loadActivities st response) =
          buffersOf (visibleSegments
            (activeActivityFilters (calculateAllSegmentOverlaps (updateActivityToggles st1)))
            (allTracksData (calculateAllSegmentOverlaps (updateActivityToggles st1))))"
        unfolding ActivitiesOk
        by (simp add: loadActivities_def Let_def Completed resetViewAndFitTracks_frame
            buffers_prepareDataForWebGL)
      then show ?thesis by blast
    qed
  qed
qed

lemma buffers_checkboxChange:
  "\<exists>segs. webGLTrackBuffers (checkboxChange st ty checked) = buffersOf segs"
  unfolding checkboxChange_def buffers_prepareDataForWebGL by blast












lemma distancePointToSegment_nonneg: "distancePointToSegment p a b = Some d \<Longrightarrow> 0 \<le> d"
  by (auto simp: distancePointToSegment_def divideChecked_def Let_def split: if_splits)

lemma distancePointToSegment_midpoint:
  "distancePointToSegment \<lparr> px = (px a + px b) / 2, py = (py a + py b) / 2 \<rparr> a b = Some 0"
proof (cases "(px a - px b)\<^sup>2 + (py a - py b)\<^sup>2 = 0")
  case True
  then have "px a = px b" "py a = py b"
    by (simp_all add: sum_power2_eq_zero_iff)
  then show ?thesis
    by (simp add: distancePointToSegment_def)
next
  case False
  let ?l2 = "(px a - px b)\<^sup>2 + (py a - py b)\<^sup>2"
  let ?m = "\<lparr> px = (px a + px b) / 2, py = (py a + py b) / 2 \<rparr>"
  have num: "(px ?m - px a) * (px b - px a) + (py ?m - py a) * (py b - py a) = ?l2 / 2"
    by (simp add: power2_eq_square field_simps)
  have half: "\<And>l::real. l \<noteq> 0 \<Longrightarrow> l / 2 / l = 1 / 2"
    by simp
  have t: "divideChecked ((px ?m - px a) * (px b - px a) + (py ?m - py a) * (py b - py a)) ?l2
      = Some (1 / 2)"
    unfolding num divideChecked_def using False half [OF False] by (simp only: if_False)
  have z: "(px ?m - (px a + max 0 (min 1 (1 / 2)) * (px b - px a)))\<^sup>2
      + (py ?m - (py a + max 0 (min 1 (1 / 2)) * (py b - py a)))\<^sup>2 = 0"
    by (simp add: field_simps)
  show ?thesis
    unfolding distancePointToSegment_def Let_def t option.case z
    using False by simp
qed

lemma pickCandidates_mem:
  "c \<in> set (pickCandidates st click segs) \<longleftrightarrow>
     (\<exists>e \<in> set segs. \<not> hiddenByFilter st (trackId (fst e)) \<and>
        distancePointToSegment click (p1 (snd e)) (p2 (snd e)) = Some (snd c) \<and>
        fst c = trackId (fst e))"
proof (induction segs)
  case Nil
  then show ?case by (simp add: pickCandidates_def)
next
  case (Cons e segs)
  show ?case
    unfolding pickCandidates_Cons set_append Un_iff Cons.IH
    by (cases c) (auto split: option.splits)
qed



section \<open>What the click listener selects\<close>

lemma cross_view:
  "viewState exampleCrossLoaded = \<lparr>centerX = 0, centerY = 0, scale = 5, panX = 375, panY = 275\<rparr>"
  by code_simp

lemma cross_segments:
  "exampleCrossSegments
   = [(\<lparr> trackId = 1, internalId = 0, trackType = ''run'',
          translatedPoints = [\<lparr>px = 0, py = 0\<rparr>, \<lparr>px = 10, py = 0\<rparr>],
          segmentsWithOverlap =
            [\<lparr>p1 = \<lparr>px = 0, py = 0\<rparr>, p2 = \<lparr>px = 10, py = 0\<rparr>, overlapCount = 2\<rparr>] \<rparr>,
       \<lparr>p1 = \<lparr>px = 0, py = 0\<rparr>, p2 = \<lparr>px = 10, py = 0\<rparr>, overlapCount = 2\<rparr>),
      (\<lparr> trackId = 2, internalId = 1, trackType = ''ride'',
          translatedPoints = [\<lparr>px = 0, py = 0\<rparr>, \<lparr>px = 0, py = 10\<rparr>],
          segmentsWithOverlap =
            [\<lparr>p1 = \<lparr>px = 0, py = 0\<rparr>, p2 = \<lparr>px = 0, py = 10\<rparr>, overlapCount = 2\<rparr>] \<rparr>,
       \<lparr>p1 = \<lparr>px = 0, py = 0\<rparr>, p2 = \<lparr>px = 0, py = 10\<rparr>, overlapCount = 2\<rparr>)]"
  by code_simp



lemma cross_distances:
  "distancePointToSegment \<lparr>px = 4 / 5, py = 1\<rparr> \<lparr>px = 0, py = 0\<rparr> \<lparr>px = 10, py = 0\<rparr> = Some 1"
  "distancePointToSegment \<lparr>px = 4 / 5, py = 1\<rparr> \<lparr>px = 0, py = 0\<rparr> \<lparr>px = 0, py = 10\<rparr>
     = Some (4 / 5)"
proof -
  have "sqrt ((4 / 5)\<^sup>2) = (4 / 5 :: real)"
    by simp
  then show
    "distancePointToSegment \<lparr>px = 4 / 5, py = 1\<rparr> \<lparr>px = 0, py = 0\<rparr> \<lparr>px = 0, py = 10\<rparr>
       = Some (4 / 5)"
    by (simp add: distancePointToSegment_def divideChecked_def Let_def)
  show "distancePointToSegment \<lparr>px = 4 / 5, py = 1\<rparr> \<lparr>px = 0, py = 0\<rparr> \<lparr>px = 10, py = 0\<rparr> = Some 1"
    by (simp add: distancePointToSegment_def divideChecked_def Let_def)
qed





text \<open>
  After a reload that fails, the dataset is empty and the buffers are those of the load
  before. The search still selects from the segments of the buffers, and the listener
  finds no metadata for the selected track.
\<close>

lemma stale_buffers:
  "allTracksData (loadActivities exampleCrossLoaded ActivitiesFailed) = []
   \<and> webGLTrackBuffers (loadActivities exampleCrossLoaded ActivitiesFailed)
       = buffersOf exampleCrossSegments
   \<and> viewState (loadActivities exampleCrossLoaded ActivitiesFailed)
       = \<lparr>centerX = 0, centerY = 0, scale = 5, panX = 375, panY = 275\<rparr>
   \<and> \<not> hiddenByFilter (loadActivities exampleCrossLoaded ActivitiesFailed) 1
   \<and> \<not> hiddenByFilter (loadActivities exampleCrossLoaded ActivitiesFailed) 2
   \<and> activityMetadata (loadActivities exampleCrossLoaded ActivitiesFailed) 2 = None
   \<and> \<not> isPanning (loadActivities exampleCrossLoaded ActivitiesFailed)
   \<and> reglInitialized (loadActivities exampleCrossLoaded ActivitiesFailed)"
  by code_simp

lemma stale_selection:
  "findBestMatch (loadActivities exampleCrossLoaded ActivitiesFailed) 379 280
     = \<lparr> bm_trackId = Some 2, bm_distance = Some (4 / 5) \<rparr>
   \<and> handleCanvasClickForPopup (loadActivities exampleCrossLoaded ActivitiesFailed) 379 280 0 0
       = NoAction"
proof -
  let ?S = "loadActivities exampleCrossLoaded ActivitiesFailed"
  have buf: "webGLTrackBuffers ?S = buffersOf exampleCrossSegments"
    using stale_buffers by blast
  have c: "screenToWorld (viewState ?S) (379, 280) = \<lparr>px = 4 / 5, py = 1\<rparr>"
    using stale_buffers by (simp add: screenToWorld_def)
  have t: "CLICK_SENSITIVITY_PIXELS / scale (viewState ?S) = 2"
    using stale_buffers by (simp add: CLICK_SENSITIVITY_PIXELS_def)
  have h: "\<not> hiddenByFilter ?S (Suc 0)" "\<not> hiddenByFilter ?S 2"
    using stale_buffers by simp_all
  have cands: "pickCandidates ?S \<lparr>px = 4 / 5, py = 1\<rparr> exampleCrossSegments = [(1, 1), (2, 4 / 5)]"
    unfolding cross_segments by (simp add: pickCandidates_def cross_distances h)
  have b: "findBestMatch ?S 379 280 = \<lparr> bm_trackId = Some 2, bm_distance = Some (4 / 5) \<rparr>"
    unfolding findBestMatch_buffersOf [OF buf] c t cands
    by (simp add: updateBest_def belowBest_def)
  have "positions (webGLTrackBuffers ?S) \<noteq> []"
    unfolding buf cross_segments by (simp add: buffersOf_def)
  then have "handleCanvasClickForPopup ?S 379 280 0 0 = NoAction"
    using stale_buffers b by (simp add: handleCanvasClickForPopup_def)
  with b show ?thesis by simp
qed

text \<open>
  The position at which a segment is drawn is not the position that the listener takes to
  the segment, unless the scale is 1 or the pan is zero: after the load of the example the
  midpoint \<open>(5, 0)\<close> of the first segment is drawn at \<open>(1900, 1375)\<close>, and the listener takes
  that position to the world point \<open>(305, 220)\<close>.
\<close>

lemma drawn_midpoint_example:
  "viewUniform (viewState exampleCrossLoaded) \<lparr>px = 5, py = 0\<rparr> = (1900, 1375)
   \<and> screenToWorld (viewState exampleCrossLoaded) (1900, 1375) = \<lparr>px = 305, py = 220\<rparr>
   \<and> screenToWorld (viewState exampleCrossLoaded) (400, 275) = \<lparr>px = 5, py = 0\<rparr>"
  by (simp add: cross_view viewUniform_def screenToWorld_def)
end
